theory Spec2Isabelle
  imports Complex_Main "HOL-Library.Sublist" "HOL-Library.AList" "HOL-Library.Log_Nat"
begin

section \<open>Python strings\<close>

text \<open>
  A Python \<open>str\<close> is modelled as a \<open>string\<close> whose characters are the code points
  0 to 255 (Latin-1).  The character classes below are the ones Python 3 uses for these
  code points: \<open>str.isspace\<close> and the regular expression class \<open>\s\<close> agree, \<open>\w\<close> is
  \<open>str.isalnum\<close> plus the underscore, \<open>\d\<close> is the decimal digits.
\<close>

definition code :: "char \<Rightarrow> nat" where
  "code c = of_char c"

definition between :: "nat \<Rightarrow> nat \<Rightarrow> nat \<Rightarrow> bool" where
  "between lo hi n = (lo \<le> n \<and> n \<le> hi)"

definition is_space :: "char \<Rightarrow> bool" where
  "is_space c = (between 0x09 0x0D (code c) \<or> between 0x1C 0x20 (code c)
     \<or> code c = 0x85 \<or> code c = 0xA0)"

definition is_digit :: "char \<Rightarrow> bool" where
  "is_digit c = between 0x30 0x39 (code c)"

definition is_upper :: "char \<Rightarrow> bool" where
  "is_upper c = (between 0x41 0x5A (code c) \<or> between 0xC0 0xD6 (code c)
     \<or> between 0xD8 0xDE (code c))"

definition is_lower :: "char \<Rightarrow> bool" where
  "is_lower c = (between 0x61 0x7A (code c) \<or> code c = 0xAA \<or> code c = 0xB5
     \<or> code c = 0xBA \<or> between 0xDF 0xF6 (code c) \<or> between 0xF8 0xFF (code c))"

definition is_word :: "char \<Rightarrow> bool" where
  "is_word c = (is_digit c \<or> is_upper c \<or> is_lower c \<or> code c = 0x5F
     \<or> between 0xB2 0xB3 (code c) \<or> code c = 0xB9 \<or> between 0xBC 0xBE (code c))"

text \<open>\<open>str.lower\<close> on one character: every upper-case letter of Latin-1 has its
  lower-case partner 32 code points above it.\<close>

definition lower_char :: "char \<Rightarrow> char" where
  "lower_char c = (if is_upper c then char_of (code c + 32) else c)"

definition py_lower :: "string \<Rightarrow> string" where
  "py_lower s = map lower_char s"

text \<open>\<open>str.isupper\<close>: no lower-case character and at least one upper-case one.\<close>

definition py_isupper :: "string \<Rightarrow> bool" where
  "py_isupper s = (list_ex is_upper s \<and> \<not> list_ex is_lower s)"

text \<open>\<open>str.strip()\<close> removes leading and trailing whitespace.\<close>

definition py_lstrip :: "string \<Rightarrow> string" where
  "py_lstrip s = dropWhile is_space s"

definition py_rstrip :: "string \<Rightarrow> string" where
  "py_rstrip s = rev (dropWhile is_space (rev s))"

definition py_strip :: "string \<Rightarrow> string" where
  "py_strip s = py_rstrip (py_lstrip s)"

text \<open>\<open>str.split()\<close> without arguments: the maximal runs of non-whitespace characters.
  The first argument is the word collected so far.\<close>

fun split_from :: "string \<Rightarrow> string \<Rightarrow> string list" where
  "split_from w [] = (if w = [] then [] else [w])"
| "split_from w (c # cs) =
     (if is_space c then (if w = [] then split_from [] cs else w # split_from [] cs)
      else split_from (w @ [c]) cs)"

definition py_split :: "string \<Rightarrow> string list" where
  "py_split s = split_from [] s"

fun py_join :: "string \<Rightarrow> string list \<Rightarrow> string" where
  "py_join sep [] = []"
| "py_join sep [w] = w"
| "py_join sep (w # v # ws) = w @ sep @ py_join sep (v # ws)"

text \<open>\<open>str.capitalize()\<close>: the first character in title case, the rest in lower case.
  The title case of a Latin-1 character that is not lower-case is the character itself,
  and of an ordinary lower-case letter the one 32 code points below.  (The title case of
  the code points 0xB5, 0xDF and 0xFF lies outside Latin-1; \<open>normalize_name\<close> calls
  \<open>capitalize\<close> only on words of a string without lower-case characters, so that case
  is never reached, and the model leaves those three characters as they are.)\<close>

definition title_char :: "char \<Rightarrow> char" where
  "title_char c = (if between 0x61 0x7A (code c) \<or> between 0xE0 0xF6 (code c)
       \<or> between 0xF8 0xFE (code c) then char_of (code c - 32) else c)"

definition py_capitalize :: "string \<Rightarrow> string" where
  "py_capitalize w = (case w of [] \<Rightarrow> [] | c # cs \<Rightarrow> title_char c # py_lower cs)"

text \<open>\<open>str.replace(old, new)\<close> for a non-empty \<open>old\<close>: the occurrences are found from
  the left and do not overlap.\<close>

function py_replace :: "string \<Rightarrow> string \<Rightarrow> string \<Rightarrow> string" where
  "py_replace old new [] = []"
| "py_replace old new (c # cs) =
     (if old \<noteq> [] \<and> prefix old (c # cs)
      then new @ py_replace old new (drop (length old) (c # cs))
      else c # py_replace old new cs)"
  by pat_completeness auto
termination
  by (relation "measure (\<lambda>(old, new, s). length s)") (auto simp: neq_Nil_conv)

text \<open>\<open>str.zfill(width)\<close> on a string of digits.\<close>

definition py_zfill :: "nat \<Rightarrow> string \<Rightarrow> string" where
  "py_zfill width s = replicate (width - length s) CHR ''0'' @ s"

section \<open>Regular expressions\<close>

text \<open>
  Each compiled pattern of the module is modelled by a function that tries the pattern
  at one position: it gets the character before the position (\<open>None\<close> at the start of
  the string) and the rest of the string, and returns the length of the match that
  Python's backtracking matcher finds there (greedy quantifiers, alternatives tried from
  left to right).  No pattern of the module matches the empty string.

  \<open>re_sub\<close> is \<open>pattern.sub(repl, s)\<close> for a constant replacement: it scans from the
  left, replaces a match and goes on behind it, and copies a character where the pattern
  does not match.
\<close>

type_synonym matcher = "char option \<Rightarrow> string \<Rightarrow> nat option"

function re_sub :: "matcher \<Rightarrow> string \<Rightarrow> char option \<Rightarrow> string \<Rightarrow> string" where
  "re_sub m repl prev [] = []"
| "re_sub m repl prev (c # cs) =
     (case m prev (c # cs) of
        None \<Rightarrow> c # re_sub m repl (Some c) cs
      | Some 0 \<Rightarrow> c # re_sub m repl (Some c) cs
      | Some (Suc k) \<Rightarrow>
          repl @ re_sub m repl (Some (last (take (Suc k) (c # cs)))) (drop k cs))"
  by pat_completeness auto
termination
  by (relation "measure (\<lambda>(m, repl, prev, s). length s)") auto

text \<open>\<open>pattern.search(s)\<close> for a pattern without anchors: the first position, from the
  left, where the pattern matches.\<close>

fun re_search :: "(string \<Rightarrow> 'a option) \<Rightarrow> string \<Rightarrow> 'a option" where
  "re_search m [] = m []"
| "re_search m (c # cs) = (case m (c # cs) of Some r \<Rightarrow> Some r | None \<Rightarrow> re_search m cs)"

text \<open>The first alternative, in the order written, that leads to a match.\<close>

fun first_match :: "('a \<Rightarrow> 'b option) \<Rightarrow> 'a list \<Rightarrow> 'b option" where
  "first_match f [] = None"
| "first_match f (x # xs) = (case f x of Some y \<Rightarrow> Some y | None \<Rightarrow> first_match f xs)"

text \<open>\<open>\b\<close>: exactly one of the characters before and behind the position is a word
  character; the ends of the string count as non-word characters.\<close>

definition word_boundary :: "char option \<Rightarrow> string \<Rightarrow> bool" where
  "word_boundary prev s =
     ((case prev of None \<Rightarrow> False | Some p \<Rightarrow> is_word p)
      \<noteq> (case s of [] \<Rightarrow> False | c # _ \<Rightarrow> is_word c))"

text \<open>A literal of lower-case ASCII letters (and hyphens) under \<open>re.IGNORECASE\<close>: a
  character of the string matches a character of the literal when its lower case is
  that character.\<close>

fun ci_prefix :: "string \<Rightarrow> string \<Rightarrow> bool" where
  "ci_prefix [] s = True"
| "ci_prefix (p # lit) [] = False"
| "ci_prefix (p # lit) (c # s) = (if lower_char c = p then ci_prefix lit s else False)"

text \<open>\<open>\b(w1|w2|...)\b\<close> under \<open>re.IGNORECASE\<close>.\<close>

definition word_try :: "string \<Rightarrow> string \<Rightarrow> nat option" where
  "word_try s w =
     (if ci_prefix w s \<and> word_boundary (Some (last (take (length w) s))) (drop (length w) s)
      then Some (length w) else None)"

definition words_match :: "string list \<Rightarrow> matcher" where
  "words_match alts prev s =
     (if word_boundary prev s then first_match (word_try s) alts else None)"

subsection \<open>The patterns of the name normalizer\<close>

text \<open>\<open>RE_SUFFIXES = re.compile(r"\b(jr|sr|ii|iii|iv|v)\.?\b", re.IGNORECASE)\<close>.
  Behind an alternative the optional full stop is tried first (greedy); when the word
  boundary behind it fails, the matcher backtracks to the match without the full stop,
  and then to the next alternative.\<close>

definition RE_SUFFIXES_try :: "string \<Rightarrow> string \<Rightarrow> nat option" where
  "RE_SUFFIXES_try s w =
     (if ci_prefix w s then
        (let r = drop (length w) s; p = last (take (length w) s) in
         if (case r of [] \<Rightarrow> False
             | d # r' \<Rightarrow> d = CHR ''.'' \<and> word_boundary (Some CHR ''.'') r')
         then Some (length w + 1)
         else if word_boundary (Some p) r then Some (length w)
         else None)
      else None)"

definition RE_SUFFIXES :: matcher where
  "RE_SUFFIXES prev s =
     (if word_boundary prev s
      then first_match (RE_SUFFIXES_try s) [''jr'', ''sr'', ''ii'', ''iii'', ''iv'', ''v'']
      else None)"

text \<open>\<open>RE_PUNCTUATION = re.compile(r"[^\w\s']")\<close>.\<close>

definition RE_PUNCTUATION :: matcher where
  "RE_PUNCTUATION prev s =
     (case s of [] \<Rightarrow> None
      | c # _ \<Rightarrow> if \<not> is_word c \<and> \<not> is_space c \<and> c \<noteq> CHR 0x27 then Some 1 else None)"

text \<open>\<open>RE_MULTIPLE_SPACES = re.compile(r"\s+")\<close>.\<close>

definition RE_MULTIPLE_SPACES :: matcher where
  "RE_MULTIPLE_SPACES prev s =
     (if takeWhile is_space s = [] then None else Some (length (takeWhile is_space s)))"

section \<open>The name normalizer\<close>

text \<open>A cell of a data frame is its text, or \<open>None\<close> for a missing value (\<open>pd.isna\<close>);
  \<open>str(cell)\<close> is the text.\<close>

type_synonym cell = "string option"

definition NAME_REPLACEMENTS :: "(string \<times> string) list" where
  "NAME_REPLACEMENTS = [(''shaquille oneal'', ''shaquille o'' @ [CHR 0x27] @ ''neal'')]"

text \<open>\<open>RE_SUFFIXES.sub("", s)\<close> and the loop over \<open>NAME_REPLACEMENTS.items()\<close>.\<close>

definition strip_suffixes :: "string \<Rightarrow> string" where
  "strip_suffixes s = re_sub RE_SUFFIXES [] None s"

definition replace_name_variants :: "string \<Rightarrow> string" where
  "replace_name_variants s =
     fold (\<lambda>(variant, standard). py_replace variant standard) NAME_REPLACEMENTS s"

definition normalize_name :: "cell \<Rightarrow> string" where
  "normalize_name name =
     (case name of
        None \<Rightarrow> []
      | Some n \<Rightarrow>
          (let s0 = py_strip n;
               s1 = (if py_isupper s0 then py_join '' '' (map py_capitalize (py_split s0))
                     else s0);
               s2 = py_lower s1;
               s3 = strip_suffixes s2;
               s4 = replace_name_variants s3;
               s5 = re_sub RE_PUNCTUATION [] None s4;
               s6 = py_strip (re_sub RE_MULTIPLE_SPACES '' '' None s5)
           in s6))"

text \<open>The shape of a canonical key: its characters are word characters, blanks and
  apostrophes, none of them upper-case, and every whitespace character is a single
  blank between two other characters.\<close>

definition key_char :: "char \<Rightarrow> bool" where
  "key_char c = ((is_word c \<or> is_space c \<or> c = CHR 0x27) \<and> \<not> is_upper c)"

fun single_spaced :: "string \<Rightarrow> bool" where
  "single_spaced [] = True"
| "single_spaced (c # cs) =
     (if is_space c
      then c = CHR '' '' \<and> (case cs of [] \<Rightarrow> True | d # _ \<Rightarrow> \<not> is_space d) \<and> single_spaced cs
      else single_spaced cs)"

definition canonical_key :: "string \<Rightarrow> bool" where
  "canonical_key s = (py_strip s = s \<and> list_all key_char s \<and> single_spaced s)"

section \<open>The field formatters\<close>

subsection \<open>Locations\<close>

text \<open>\<open>RE_BORN_PREFIX = re.compile(r"^in\s*([..]\s*)?", re.IGNORECASE)\<close>, where the
  class holds the code points 0xC2 and 0xC0; under \<open>re.IGNORECASE\<close> it also matches
  their lower-case partners 0xE2 and 0xE0.  \<open>^\<close> matches at the start of the string
  only.  Every quantifier is greedy and nothing behind it can fail, so the match is the
  longest one.\<close>

definition born_artifact :: "char \<Rightarrow> bool" where
  "born_artifact c = (lower_char c = CHR 0xE2 \<or> lower_char c = CHR 0xE0)"

definition RE_BORN_PREFIX :: matcher where
  "RE_BORN_PREFIX prev s =
     (if prev = None \<and> ci_prefix ''in'' s then
        (let r = drop 2 s;
             n1 = length (takeWhile is_space r);
             r1 = dropWhile is_space r;
             n2 = (case r1 of [] \<Rightarrow> 0
                   | c # r2 \<Rightarrow> if born_artifact c then 1 + length (takeWhile is_space r2) else 0)
         in Some (2 + n1 + n2))
      else None)"

text \<open>What a match of \<open>RE_BORN_PREFIX\<close> leaves of the text \<open>r\<close> behind its \<open>in\<close>:
  the whitespace, and an artifact character with the whitespace behind it, are part of
  the match.\<close>

definition born_prefix_rest :: "string \<Rightarrow> string" where
  "born_prefix_rest r =
     (case dropWhile is_space r of
        [] \<Rightarrow> []
      | c # r2 \<Rightarrow> if born_artifact c then dropWhile is_space r2 else c # r2)"

text \<open>\<open>RE_COMMA_SPACE = re.compile(r",\s*")\<close>.\<close>

definition RE_COMMA_SPACE :: matcher where
  "RE_COMMA_SPACE prev s =
     (case s of [] \<Rightarrow> None
      | c # r \<Rightarrow> if c = CHR '','' then Some (1 + length (takeWhile is_space r)) else None)"

definition format_born_location :: "cell \<Rightarrow> string" where
  "format_born_location location =
     (case location of
        None \<Rightarrow> []
      | Some l \<Rightarrow>
          (let s0 = py_strip l;
               s1 = re_sub RE_BORN_PREFIX [] None s0;
               s2 = re_sub RE_MULTIPLE_SPACES '' '' None s1;
               s3 = re_sub RE_COMMA_SPACE '', '' None s2
           in py_strip s3))"

subsection \<open>Dates\<close>

definition MONTH_TO_NUM_MAP :: "(string \<times> string) list" where
  "MONTH_TO_NUM_MAP =
     [(''january'', ''01''), (''february'', ''02''), (''march'', ''03''), (''april'', ''04''),
      (''may'', ''05''), (''june'', ''06''), (''july'', ''07''), (''august'', ''08''),
      (''september'', ''09''), (''october'', ''10''), (''november'', ''11''),
      (''december'', ''12''),
      (''jan'', ''01''), (''feb'', ''02''), (''mar'', ''03''), (''apr'', ''04''),
      (''jun'', ''06''), (''jul'', ''07''), (''aug'', ''08''), (''sep'', ''09''),
      (''oct'', ''10''), (''nov'', ''11''), (''dec'', ''12'')]"

text \<open>\<open>\d{n}\<close> at the start of a string: the digits and the rest.\<close>

definition digits_n :: "nat \<Rightarrow> string \<Rightarrow> (string \<times> string) option" where
  "digits_n n s =
     (if n \<le> length s \<and> list_all is_digit (take n s) then Some (take n s, drop n s) else None)"

text \<open>\<open>\d{1,2}\<close> is greedy: two digits are tried first, then one.\<close>

definition digits_1_2 :: "string \<Rightarrow> (string \<times> string) list" where
  "digits_1_2 s = List.map_filter (\<lambda>n. digits_n n s) [2, 1]"

text \<open>\<open>RE_MONTH_DAY_YEAR = re.compile(r"(\w+)\s+(\d{1,2}),?\s*(\d{4})", re.IGNORECASE)\<close>,
  used with \<open>match\<close> (at the start of the string).  \<open>\w+\<close> and \<open>\s+\<close> take their
  maximal runs: the pattern behind each cannot start with a character of the run, so
  giving characters back never helps.  The same holds for \<open>,?\<close> and \<open>\s*\<close>.  The
  groups are the month, the day and the year.\<close>

definition RE_MONTH_DAY_YEAR_tail ::
    "string \<Rightarrow> string \<times> string \<Rightarrow> (string \<times> string \<times> string) option" where
  "RE_MONTH_DAY_YEAR_tail month dr =
     (case dr of (day, r) \<Rightarrow>
        (let r1 = (case r of [] \<Rightarrow> [] | c # r' \<Rightarrow> if c = CHR '','' then r' else c # r');
             r2 = dropWhile is_space r1
         in case digits_n 4 r2 of
              None \<Rightarrow> None
            | Some (year, _) \<Rightarrow> Some (month, day, year)))"

definition RE_MONTH_DAY_YEAR_match :: "string \<Rightarrow> (string \<times> string \<times> string) option" where
  "RE_MONTH_DAY_YEAR_match s =
     (let month = takeWhile is_word s;
          r = dropWhile is_word s;
          sp = takeWhile is_space r;
          r1 = dropWhile is_space r
      in if month = [] \<or> sp = [] then None
         else first_match (RE_MONTH_DAY_YEAR_tail month) (digits_1_2 r1))"

text \<open>\<open>RE_YYYY_MM_DD = re.compile(r"\d{4}-\d{2}-\d{2}")\<close>, used with \<open>match\<close>.\<close>

definition hyphen :: "string \<Rightarrow> string option" where
  "hyphen s = (case s of [] \<Rightarrow> None | c # r \<Rightarrow> if c = CHR ''-'' then Some r else None)"

definition slash :: "string \<Rightarrow> string option" where
  "slash s = (case s of [] \<Rightarrow> None | c # r \<Rightarrow> if c = CHR ''/'' then Some r else None)"

definition RE_YYYY_MM_DD_match :: "string \<Rightarrow> bool" where
  "RE_YYYY_MM_DD_match s =
     (case digits_n 4 s of None \<Rightarrow> False
      | Some (_, r) \<Rightarrow>
     (case hyphen r of None \<Rightarrow> False
      | Some r1 \<Rightarrow>
     (case digits_n 2 r1 of None \<Rightarrow> False
      | Some (_, r2) \<Rightarrow>
     (case hyphen r2 of None \<Rightarrow> False
      | Some r3 \<Rightarrow> digits_n 2 r3 \<noteq> None))))"

text \<open>\<open>RE_MM_DD_YYYY = re.compile(r"(\d{1,2})/(\d{1,2})/(\d{4})")\<close>, used with
  \<open>match\<close>.  The groups are the month, the day and the year.\<close>

definition RE_MM_DD_YYYY_day ::
    "string \<Rightarrow> string \<times> string \<Rightarrow> (string \<times> string \<times> string) option" where
  "RE_MM_DD_YYYY_day month dr =
     (case dr of (day, r) \<Rightarrow>
        (case slash r of None \<Rightarrow> None
         | Some r1 \<Rightarrow>
        (case digits_n 4 r1 of None \<Rightarrow> None
         | Some (year, _) \<Rightarrow> Some (month, day, year))))"

definition RE_MM_DD_YYYY_month :: "string \<times> string \<Rightarrow> (string \<times> string \<times> string) option" where
  "RE_MM_DD_YYYY_month mr =
     (case mr of (month, r) \<Rightarrow>
        (case slash r of None \<Rightarrow> None
         | Some r1 \<Rightarrow> first_match (RE_MM_DD_YYYY_day month) (digits_1_2 r1)))"

definition RE_MM_DD_YYYY_match :: "string \<Rightarrow> (string \<times> string \<times> string) option" where
  "RE_MM_DD_YYYY_match s = first_match RE_MM_DD_YYYY_month (digits_1_2 s)"

text \<open>The three patterns are tried in the order of the source.  A "Month Day, Year"
  match whose month is not a key of the table falls through to the other two.\<close>

definition standardize_date_format :: "cell \<Rightarrow> string" where
  "standardize_date_format date_str =
     (case date_str of
        None \<Rightarrow> []
      | Some d \<Rightarrow>
          (let s = py_strip d;
               named =
                 (case RE_MONTH_DAY_YEAR_match s of
                    None \<Rightarrow> None
                  | Some (month_name, day, year) \<Rightarrow>
                      (case map_of MONTH_TO_NUM_MAP (py_lower month_name) of
                         None \<Rightarrow> None
                       | Some month_num \<Rightarrow>
                           Some (year @ ''-'' @ month_num @ ''-'' @ py_zfill 2 day)))
           in case named of
                Some r \<Rightarrow> r
              | None \<Rightarrow>
                  if RE_YYYY_MM_DD_match s then s
                  else (case RE_MM_DD_YYYY_match s of
                          Some (month, day, year) \<Rightarrow>
                            year @ ''-'' @ py_zfill 2 month @ ''-'' @ py_zfill 2 day
                        | None \<Rightarrow> s)))"

text \<open>A string that one of the three branches of the date formatter rewrites or passes
  through: it starts with a "Month Day, Year" match whose month is in the table, with a
  \<open>YYYY-MM-DD\<close> match or with an \<open>M/D/YYYY\<close> match.\<close>

definition date_recognized :: "string \<Rightarrow> bool" where
  "date_recognized s =
     ((case RE_MONTH_DAY_YEAR_match s of
         None \<Rightarrow> False
       | Some (month_name, day, year) \<Rightarrow> map_of MONTH_TO_NUM_MAP (py_lower month_name) \<noteq> None)
      \<or> RE_YYYY_MM_DD_match s \<or> RE_MM_DD_YYYY_match s \<noteq> None)"

subsection \<open>Heights\<close>

definition EXCEL_DATE_TO_HEIGHT_CONVERSIONS :: "(string \<times> string) list" where
  "EXCEL_DATE_TO_HEIGHT_CONVERSIONS =
     [(''jan'', ''1''), (''feb'', ''2''), (''mar'', ''3''), (''apr'', ''4''), (''may'', ''5''),
      (''jun'', ''6''), (''jul'', ''7''), (''aug'', ''8''), (''sep'', ''9''), (''oct'', ''10''),
      (''nov'', ''11''), (''dec'', ''12'')]"

text \<open>\<open>re.sub(literal, repl, s, flags=re.IGNORECASE)\<close> for a literal of lower-case
  letters and hyphens.\<close>

definition literal_match :: "string \<Rightarrow> matcher" where
  "literal_match lit prev s = (if lit \<noteq> [] \<and> ci_prefix lit s then Some (length lit) else None)"

definition repair_month :: "string \<times> string \<Rightarrow> string \<Rightarrow> string" where
  "repair_month conv s =
     (case conv of (month_abbr, month_num) \<Rightarrow>
        (let s1 = re_sub (literal_match (''-'' @ month_abbr)) (''-'' @ month_num) None s
         in re_sub (literal_match (month_abbr @ ''-'')) (month_num @ ''-'') None s1))"

text \<open>\<open>RE_HEIGHT_MONTH_WORDS = re.compile(r"\b(month|months|mo|mos|m)\b", re.IGNORECASE)\<close>
  and \<open>RE_HEIGHT_MONTH_ABBRS = re.compile(r"\b(jan|feb|...|dec)\b", re.IGNORECASE)\<close>.\<close>

definition RE_HEIGHT_MONTH_WORDS :: matcher where
  "RE_HEIGHT_MONTH_WORDS = words_match [''month'', ''months'', ''mo'', ''mos'', ''m'']"

definition RE_HEIGHT_MONTH_ABBRS :: matcher where
  "RE_HEIGHT_MONTH_ABBRS =
     words_match [''jan'', ''feb'', ''mar'', ''apr'', ''may'', ''jun'', ''jul'', ''aug'', ''sep'',
       ''oct'', ''nov'', ''dec'']"

text \<open>\<open>RE_HEIGHT_FT_IN = re.compile(r"(\d+)['\s]*[-\s]*(\d+)")\<close> tried at the start of
  \<open>s\<close>.  The first group takes the whole run of digits and the two classes their
  maximal runs; a shorter run of separators never leads to a digit.  When no digit
  follows the separators, the matcher backtracks into the first group: it gives its
  last digit to the second group, which needs a first group of two digits at least.\<close>

definition RE_HEIGHT_FT_IN_at :: "string \<Rightarrow> (string \<times> string) option" where
  "RE_HEIGHT_FT_IN_at s =
     (let feet = takeWhile is_digit s;
          r = dropWhile is_digit s;
          r1 = dropWhile (\<lambda>c. c = CHR 0x27 \<or> is_space c) r;
          r2 = dropWhile (\<lambda>c. c = CHR ''-'' \<or> is_space c) r1;
          inches = takeWhile is_digit r2
      in if feet = [] then None
         else if inches \<noteq> [] then Some (feet, inches)
         else if 2 \<le> length feet then Some (butlast feet, [last feet])
         else None)"

text \<open>\<open>RE_HEIGHT_FT_ONLY = re.compile(r"(\d+)['\s]*(?:ft|feet)?")\<close> tried at the start
  of \<open>s\<close>: everything behind the first group is optional.  The result is group 1.\<close>

definition RE_HEIGHT_FT_ONLY_at :: "string \<Rightarrow> string option" where
  "RE_HEIGHT_FT_ONLY_at s =
     (if takeWhile is_digit s = [] then None else Some (takeWhile is_digit s))"

text \<open>The string the two height patterns are searched in: the stripped input after the
  repair of the month artifacts and the removal of month words.\<close>

definition height_repaired :: "string \<Rightarrow> string" where
  "height_repaired h =
     (let s0 = py_strip h;
          s1 = fold repair_month EXCEL_DATE_TO_HEIGHT_CONVERSIONS s0;
          s2 = re_sub RE_HEIGHT_MONTH_WORDS [] None s1
      in re_sub RE_HEIGHT_MONTH_ABBRS [] None s2)"

definition standardize_height_imperial :: "cell \<Rightarrow> string" where
  "standardize_height_imperial height_str =
     (case height_str of
        None \<Rightarrow> []
      | Some h \<Rightarrow>
          (let s = height_repaired h in
           case re_search RE_HEIGHT_FT_IN_at s of
             Some (feet, inches) \<Rightarrow> feet @ ''-'' @ inches
           | None \<Rightarrow>
               (case re_search RE_HEIGHT_FT_ONLY_at s of
                  Some feet \<Rightarrow> feet @ ''-0''
                | None \<Rightarrow> py_strip (re_sub RE_MULTIPLE_SPACES [] None s))))"

section \<open>Floating-point numbers\<close>

text \<open>
  A finite Python \<open>float\<close> (binary64) is modelled by the rational number it denotes, so
  the comparisons of the source (between floats, and between an \<open>int\<close> and a float) are
  the comparisons of rationals.  Every arithmetic operation rounds its exact result to
  the nearest binary64 value, ties to the even mantissa.  The rounding below is the one
  of the normal range (53 bits of mantissa); overflow and subnormal results do not
  occur for the row counts and token counts of this program.
\<close>

definition pow2 :: "int \<Rightarrow> rat" where
  "pow2 e = (if 0 \<le> e then 2 ^ nat e else 1 / 2 ^ nat (- e))"

text \<open>For positive \<open>a\<close> and \<open>b\<close>, the exponent \<open>e\<close> with \<open>2^e \<le> a / b < 2^(e + 1)\<close>.\<close>

definition binade :: "int \<Rightarrow> int \<Rightarrow> int" where
  "binade a b =
     (let d = bitlen a - bitlen b in
      if (if 0 \<le> d then b * 2 ^ nat d \<le> a else b \<le> a * 2 ^ nat (- d)) then d else d - 1)"

text \<open>The integer nearest to \<open>num / den\<close> (for a positive \<open>den\<close>), ties to even.\<close>

definition round_half_even :: "int \<Rightarrow> int \<Rightarrow> int" where
  "round_half_even num den =
     (let q = num div den; r = num mod den in
      if 2 * r < den then q
      else if den < 2 * r then q + 1
      else if even q then q else q + 1)"

definition round_to_float :: "rat \<Rightarrow> rat" where
  "round_to_float x =
     (if x = 0 then 0
      else (case quotient_of \<bar>x\<bar> of (a, b) \<Rightarrow>
        (let e = binade a b - 52;
             m = (if 0 \<le> e then round_half_even a (b * 2 ^ nat e)
                  else round_half_even (a * 2 ^ nat (- e)) b)
         in sgn x * of_int m * pow2 e)))"

text \<open>\<open>float(n)\<close>, \<open>a / b\<close> on two \<open>int\<close>s (true division, correctly rounded) and
  \<open>x * y\<close> on two floats.\<close>

definition float_of_int :: "int \<Rightarrow> rat" where
  "float_of_int n = round_to_float (of_int n)"

definition int_truediv :: "int \<Rightarrow> int \<Rightarrow> rat" where
  "int_truediv a b = round_to_float (of_int a / of_int b)"

definition float_mul :: "rat \<Rightarrow> rat \<Rightarrow> rat" where
  "float_mul x y = round_to_float (x * y)"

section \<open>The fuzzy matcher\<close>

text \<open>The default \<open>threshold=0.8\<close>: the literal denotes the binary64 value nearest to
  4/5.\<close>

definition default_threshold :: rat where
  "default_threshold = round_to_float (4 / 5)"

text \<open>\<open>matches = sum(1 for part in espn_parts if part in br_parts_set)\<close> and
  \<open>current_score = matches / len(espn_parts)\<close>.\<close>

definition count_matches :: "string list \<Rightarrow> string set \<Rightarrow> nat" where
  "count_matches espn_parts br_parts_set =
     length (filter (\<lambda>part. part \<in> br_parts_set) espn_parts)"

definition match_score :: "string list \<Rightarrow> string set \<Rightarrow> rat" where
  "match_score espn_parts br_parts_set =
     int_truediv (int (count_matches espn_parts br_parts_set)) (int (length espn_parts))"

text \<open>The body of the \<open>for\<close> loop over \<open>br_names_normalized_parts_list\<close>, with the two
  loop variables \<open>best_match_name\<close> and \<open>highest_score\<close>.  \<open>return best_match_name\<close>
  inside the loop is the branch without a recursive call.\<close>

fun fuzzy_loop ::
    "string list \<Rightarrow> rat \<Rightarrow> (string \<times> string set) list \<Rightarrow> string option \<Rightarrow> rat \<Rightarrow> string option"
where
  "fuzzy_loop espn_parts min_match_score [] best_match_name highest_score = best_match_name"
| "fuzzy_loop espn_parts min_match_score ((original_br_name, br_parts_set) # rest)
       best_match_name highest_score =
     (if br_parts_set = {} then
        fuzzy_loop espn_parts min_match_score rest best_match_name highest_score
      else if min_match_score \<le> of_nat (count_matches espn_parts br_parts_set) then
        (let current_score = match_score espn_parts br_parts_set in
         if highest_score < current_score then
           (if current_score = 1 then Some original_br_name
            else fuzzy_loop espn_parts min_match_score rest
                   (Some original_br_name) current_score)
         else fuzzy_loop espn_parts min_match_score rest best_match_name highest_score)
      else fuzzy_loop espn_parts min_match_score rest best_match_name highest_score)"

text \<open>\<open>min_match_score = len(espn_parts) * threshold\<close>.\<close>

definition min_match_score :: "string list \<Rightarrow> rat \<Rightarrow> rat" where
  "min_match_score espn_parts threshold =
     float_mul (float_of_int (int (length espn_parts))) threshold"

definition fuzzy_name_match ::
    "cell \<Rightarrow> (string \<times> string set) list \<Rightarrow> rat \<Rightarrow> string option" where
  "fuzzy_name_match espn_name br_names_normalized_parts_list threshold =
     (let espn_normalized = normalize_name espn_name in
      if espn_normalized = [] then None
      else
        (let espn_parts = py_split espn_normalized in
         if espn_parts = [] then None
         else fuzzy_loop espn_parts (min_match_score espn_parts threshold)
                br_names_normalized_parts_list None (- 1)))"

text \<open>A candidate that the loop considers: its token set is not empty and its number
  of matches reaches the minimum.\<close>

definition meets_threshold :: "string list \<Rightarrow> rat \<Rightarrow> string set \<Rightarrow> bool" where
  "meets_threshold espn_parts threshold br_parts_set =
     (br_parts_set \<noteq> {} \<and>
      min_match_score espn_parts threshold \<le> of_nat (count_matches espn_parts br_parts_set))"

section \<open>The merge engine\<close>

subsection \<open>Dictionaries and data frames\<close>

text \<open>
  A Python \<open>dict\<close> is an association list in insertion order with distinct keys:
  \<open>d[k] = v\<close> is \<open>AList.update\<close> (an existing key keeps its place, a new key goes to
  the end), \<open>del d[k]\<close> is \<open>AList.delete\<close>, \<open>k in d\<close> is \<open>map_of d k \<noteq> None\<close>, and
  \<open>d[k]\<close> raises \<open>KeyError\<close> for a missing key.
\<close>

datatype error = KeyError string | LoadError string

type_synonym 'v dict = "(string \<times> 'v) list"

definition dict_get :: "'v dict \<Rightarrow> string \<Rightarrow> error + 'v" where
  "dict_get d k = (case map_of d k of None \<Rightarrow> Inl (KeyError k) | Some v \<Rightarrow> Inr v)"

text \<open>A row of a data frame is the dictionary \<open>row.to_dict()\<close>: the cells under the
  column names, in column order.  A data frame is its column names and its rows; every
  row has the keys \<open>columns\<close>, in this order.\<close>

type_synonym row = "cell dict"

record dataframe =
  columns :: "string list"
  rows :: "row list"

definition wf_dataframe :: "dataframe \<Rightarrow> bool" where
  "wf_dataframe df = (distinct (columns df) \<and> list_all (\<lambda>r. map fst r = columns df) (rows df))"

text \<open>The cell of a row under a column name (a missing value when the row has no such
  key, which does not happen in a well-formed data frame).\<close>

definition row_cell :: "row \<Rightarrow> string \<Rightarrow> cell" where
  "row_cell r k = (case map_of r k of None \<Rightarrow> None | Some v \<Rightarrow> v)"

text \<open>\<open>df[col] = df[col].apply(f)\<close>.\<close>

definition df_apply :: "string \<Rightarrow> (cell \<Rightarrow> string) \<Rightarrow> dataframe \<Rightarrow> error + dataframe" where
  "df_apply col f df =
     (if col \<in> set (columns df)
      then Inr (df\<lparr>rows := map (map (\<lambda>(k, v). if k = col then (k, Some (f v)) else (k, v)))
                               (rows df)\<rparr>)
      else Inl (KeyError col))"

text \<open>\<open>df.drop(columns=cols, errors="ignore")\<close>.\<close>

definition df_drop :: "string list \<Rightarrow> dataframe \<Rightarrow> dataframe" where
  "df_drop cols df =
     \<lparr>columns = filter (\<lambda>c. c \<notin> set cols) (columns df),
      rows = map (filter (\<lambda>(k, v). k \<notin> set cols)) (rows df)\<rparr>"

text \<open>\<open>df[new] = df[src].apply(f)\<close>: an existing column \<open>new\<close> is overwritten in its
  place, a new one is appended.\<close>

definition df_assign ::
    "string \<Rightarrow> string \<Rightarrow> (cell \<Rightarrow> string) \<Rightarrow> dataframe \<Rightarrow> error + dataframe" where
  "df_assign new src f df =
     (if src \<in> set (columns df)
      then Inr \<lparr>columns = (if new \<in> set (columns df) then columns df else columns df @ [new]),
                rows = map (\<lambda>r. AList.update new (Some (f (row_cell r src))) r) (rows df)\<rparr>
      else Inl (KeyError src))"

text \<open>The text of a cell that a formatter or the normalizer has written.\<close>

definition row_text :: "row \<Rightarrow> string \<Rightarrow> string" where
  "row_text r k = (case map_of r k of Some (Some s) \<Rightarrow> s | _ \<Rightarrow> [])"

text \<open>\<open>Series.dropna().unique()\<close>: the values that are not missing, each once, in the
  order of their first occurrence.\<close>

fun unique_from :: "'a list \<Rightarrow> 'a list \<Rightarrow> 'a list" where
  "unique_from seen [] = []"
| "unique_from seen (x # xs) =
     (if x \<in> set seen then unique_from seen xs else x # unique_from (x # seen) xs)"

definition dropna_unique :: "cell list \<Rightarrow> string list" where
  "dropna_unique cells = unique_from [] (List.map_filter (\<lambda>c. c) cells)"

subsection \<open>Assembling a merged record\<close>

definition create_ordered_merged_player_entry :: "row \<Rightarrow> row \<Rightarrow> error + row" where
  "create_ordered_merged_player_entry br_player_info espn_row_data =
     (let player_data0 =
            (if map_of br_player_info ''Normalized_Name'' \<noteq> None
             then AList.delete ''Normalized_Name'' br_player_info else br_player_info)
      in case dict_get espn_row_data ''RK'' of Inl e \<Rightarrow> Inl e
         | Inr rk \<Rightarrow>
      (let player_data1 = AList.update ''ESPN_Rank'' rk player_data0
       in case dict_get espn_row_data ''PTS'' of Inl e \<Rightarrow> Inl e
          | Inr pts \<Rightarrow>
      (let player_data = AList.update ''ESPN_Points'' pts player_data1
       in case dict_get player_data ''ESPN_Rank'' of Inl e \<Rightarrow> Inl e
          | Inr v_rank \<Rightarrow>
      (let ordered_entry1 = AList.update ''ESPN_Rank'' v_rank []
       in case dict_get player_data ''Name'' of Inl e \<Rightarrow> Inl e
          | Inr v_name \<Rightarrow>
      (let ordered_entry2 = AList.update ''Name'' v_name ordered_entry1
       in case dict_get player_data ''ESPN_Points'' of Inl e \<Rightarrow> Inl e
          | Inr v_points \<Rightarrow>
      (let ordered_entry3 = AList.update ''ESPN_Points'' v_points ordered_entry2
       in Inr (fold (\<lambda>(key, value) ordered_entry.
                       if map_of ordered_entry key = None
                       then AList.update key value ordered_entry else ordered_entry)
                 player_data ordered_entry3)))))))"

subsection \<open>Matching the secondary rows\<close>

definition and_then :: "error + 'a \<Rightarrow> ('a \<Rightarrow> error + 'b) \<Rightarrow> error + 'b" where
  "and_then x f = (case x of Inl e \<Rightarrow> Inl e | Inr v \<Rightarrow> f v)"

definition columns_to_remove_br :: "string list" where
  "columns_to_remove_br = [''Pronunciation'', ''High School'', ''College'', ''Draft'', ''URL'']"

text \<open>The processing of the primary data frame: the four formatters, the removal of
  columns, and the new column \<open>Normalized_Name\<close>.\<close>

definition prepare_br :: "dataframe \<Rightarrow> error + dataframe" where
  "prepare_br br_df =
     and_then (df_apply ''Born_Location'' format_born_location br_df) (\<lambda>df1.
     and_then (df_apply ''Born_Date'' standardize_date_format df1) (\<lambda>df2.
     and_then (df_apply ''NBA_Debut'' standardize_date_format df2) (\<lambda>df3.
     and_then (df_apply ''Height_Imperial'' standardize_height_imperial df3) (\<lambda>df4.
     df_assign ''Normalized_Name'' ''Name'' normalize_name
       (df_drop columns_to_remove_br df4)))))"

text \<open>The loop that fills \<open>br_lookup\<close>, over the rows in data frame order.\<close>

definition br_lookup_step :: "row \<Rightarrow> row dict \<Rightarrow> row dict" where
  "br_lookup_step r br_lookup =
     (let normalized = row_text r ''Normalized_Name'' in
      if normalized \<noteq> [] \<and> map_of br_lookup normalized = None
      then AList.update normalized r br_lookup else br_lookup)"

definition build_br_lookup :: "row list \<Rightarrow> row dict" where
  "build_br_lookup rs = fold br_lookup_step rs []"

text \<open>The list \<open>br_names_for_fuzzy_prepped\<close>.\<close>

definition df_column :: "string \<Rightarrow> dataframe \<Rightarrow> cell list" where
  "df_column col df = map (\<lambda>r. row_cell r col) (rows df)"

definition fuzzy_candidates :: "dataframe \<Rightarrow> (string \<times> string set) list" where
  "fuzzy_candidates br_df =
     map (\<lambda>name. (name, set (py_split (normalize_name (Some name)))))
       (filter (\<lambda>name. normalize_name (Some name) \<noteq> [])
          (dropna_unique (df_column ''Name'' br_df)))"

record merge_state =
  merged_data :: "row list"
  unmatched_players :: "row list"
  exact_matches :: nat
  fuzzy_matches :: nat

text \<open>The search for \<open>br_player_info\<close>: the exact match first, then the fuzzy one.  The
  result also says which counter to increment.\<close>

datatype match_kind = Exact | Fuzzy

definition find_br_player ::
    "row dict \<Rightarrow> (string \<times> string set) list \<Rightarrow> string \<Rightarrow> cell \<Rightarrow> (row \<times> match_kind) option"
where
  "find_br_player br_lookup br_names_for_fuzzy_prepped espn_normalized player =
     (if espn_normalized \<noteq> [] \<and> map_of br_lookup espn_normalized \<noteq> None
      then map_option (\<lambda>info. (info, Exact)) (map_of br_lookup espn_normalized)
      else
        (case fuzzy_name_match player br_names_for_fuzzy_prepped default_threshold of
           None \<Rightarrow> None
         | Some fuzzy_match_original_br_name \<Rightarrow>
             if fuzzy_match_original_br_name = [] then None
             else map_option (\<lambda>info. (info, Fuzzy))
                    (map_of br_lookup (normalize_name (Some fuzzy_match_original_br_name)))))"

definition count_match :: "match_kind \<Rightarrow> merge_state \<Rightarrow> merge_state" where
  "count_match k st =
     (case k of Exact \<Rightarrow> st\<lparr>exact_matches := exact_matches st + 1\<rparr>
      | Fuzzy \<Rightarrow> st\<lparr>fuzzy_matches := fuzzy_matches st + 1\<rparr>)"

definition unmatched_entry :: "row \<Rightarrow> string \<Rightarrow> error + row" where
  "unmatched_entry espn_row espn_normalized =
     and_then (dict_get espn_row ''Player'') (\<lambda>player.
     and_then (dict_get espn_row ''RK'') (\<lambda>rk.
     and_then (dict_get espn_row ''PTS'') (\<lambda>pts.
     Inr [(''ESPN_Player'', player), (''ESPN_Rank'', rk), (''ESPN_Points'', pts),
          (''Normalized_Name'', Some espn_normalized)])))"

text \<open>The body of the loop over the secondary rows.  A dictionary is true when it is
  not empty.\<close>

definition merge_row ::
    "row dict \<Rightarrow> (string \<times> string set) list \<Rightarrow> row \<Rightarrow> merge_state \<Rightarrow> error + merge_state"
where
  "merge_row br_lookup br_names_for_fuzzy_prepped espn_row st =
     (let espn_normalized = row_text espn_row ''Normalized_ESPN_Name'' in
      and_then (dict_get espn_row ''Player'') (\<lambda>player.
        (case find_br_player br_lookup br_names_for_fuzzy_prepped espn_normalized player of
           None \<Rightarrow>
             and_then (unmatched_entry espn_row espn_normalized) (\<lambda>entry.
               Inr (st\<lparr>unmatched_players := unmatched_players st @ [entry]\<rparr>))
         | Some (br_player_info, kind) \<Rightarrow>
             if br_player_info \<noteq> [] then
               and_then (create_ordered_merged_player_entry br_player_info espn_row)
                 (\<lambda>ordered_entry.
                    Inr ((count_match kind st)
                           \<lparr>merged_data := merged_data st @ [ordered_entry]\<rparr>))
             else
               and_then (unmatched_entry espn_row espn_normalized) (\<lambda>entry.
                 Inr ((count_match kind st)
                        \<lparr>unmatched_players := unmatched_players st @ [entry]\<rparr>)))))"

fun merge_rows ::
    "row dict \<Rightarrow> (string \<times> string set) list \<Rightarrow> row list \<Rightarrow> merge_state \<Rightarrow> error + merge_state"
where
  "merge_rows br_lookup cands [] st = Inr st"
| "merge_rows br_lookup cands (espn_row # espn_rows) st =
     and_then (merge_row br_lookup cands espn_row st) (merge_rows br_lookup cands espn_rows)"

subsection \<open>Statistics\<close>

datatype number = PyInt int | PyFloat rat

text \<open>\<open>(len(merged_data) / len(espn_df)) * 100\<close>, or \<open>0.0\<close> for an empty secondary
  data frame.\<close>

definition match_percentage :: "nat \<Rightarrow> nat \<Rightarrow> rat" where
  "match_percentage n_merged n_espn =
     (if 0 < n_espn
      then float_mul (int_truediv (int n_merged) (int n_espn)) (float_of_int 100)
      else 0)"

definition make_stats :: "dataframe \<Rightarrow> dataframe \<Rightarrow> merge_state \<Rightarrow> number dict" where
  "make_stats espn_df br_df st =
     [(''total_espn_players'', PyInt (int (length (rows espn_df)))),
      (''total_br_players'', PyInt (int (length (rows br_df)))),
      (''exact_matches'', PyInt (int (exact_matches st))),
      (''fuzzy_matches'', PyInt (int (fuzzy_matches st))),
      (''total_matches'', PyInt (int (length (merged_data st)))),
      (''unmatched'', PyInt (int (length (unmatched_players st)))),
      (''match_percentage'',
         PyFloat (match_percentage (length (merged_data st)) (length (rows espn_df))))]"

subsection \<open>The entry point\<close>

text \<open>The merge of two loaded data frames: everything behind the \<open>try\<close> block.\<close>

definition merge_loaded ::
    "dataframe \<Rightarrow> dataframe \<Rightarrow> error + (row list \<times> row list \<times> number dict)" where
  "merge_loaded br_df0 espn_df0 =
     and_then (prepare_br br_df0) (\<lambda>br_df.
       (let br_lookup = build_br_lookup (rows br_df);
            br_names_for_fuzzy_prepped = fuzzy_candidates br_df
        in and_then (df_assign ''Normalized_ESPN_Name'' ''Player'' normalize_name espn_df0)
             (\<lambda>espn_df.
                and_then
                  (merge_rows br_lookup br_names_for_fuzzy_prepped (rows espn_df)
                     \<lparr>merged_data = [], unmatched_players = [], exact_matches = 0,
                      fuzzy_matches = 0\<rparr>)
                  (\<lambda>st. Inr (merged_data st, unmatched_players st,
                              make_stats espn_df br_df st)))))"

text \<open>\<open>pd.read_csv\<close> is a parameter: it maps a path to a data frame or to the
  exception it raises.  The \<open>try\<close> block catches every exception of the two loads and
  returns \<open>[], [], {}\<close>; the second file is not read when the first load fails.\<close>

definition clean_and_merge_player_data ::
    "(string \<Rightarrow> error + dataframe) \<Rightarrow> string \<Rightarrow> string
       \<Rightarrow> error + (row list \<times> row list \<times> number dict)" where
  "clean_and_merge_player_data read_csv br_csv_path espn_csv_path =
     (case read_csv br_csv_path of
        Inl e \<Rightarrow> Inr ([], [], [])
      | Inr br_df \<Rightarrow>
          (case read_csv espn_csv_path of
             Inl e \<Rightarrow> Inr ([], [], [])
           | Inr espn_df \<Rightarrow> merge_loaded br_df espn_df))"

section \<open>Example data\<close>

text \<open>Small data sets on which the properties below are evaluated.\<close>

definition example_primary :: row where
  "example_primary =
     [(''Name'', Some ''LeBron James''), (''Position'', Some ''F''),
      (''Normalized_Name'', Some ''lebron james'')]"

definition example_secondary :: row where
  "example_secondary =
     [(''RK'', Some ''1''), (''Player'', Some ''LEBRON JAMES''), (''PTS'', Some ''38652'')]"

definition example_br_columns :: "string list" where
  "example_br_columns =
     [''Name'', ''Born_Location'', ''Born_Date'', ''NBA_Debut'', ''Height_Imperial'']"

definition example_br_row :: "string \<Rightarrow> row" where
  "example_br_row name =
     [(''Name'', Some name), (''Born_Location'', None), (''Born_Date'', None),
      (''NBA_Debut'', None), (''Height_Imperial'', None)]"

definition example_prepared_row :: "string \<Rightarrow> string \<Rightarrow> row" where
  "example_prepared_row name normalized =
     [(''Name'', Some name), (''Born_Location'', Some []), (''Born_Date'', Some []),
      (''NBA_Debut'', Some []), (''Height_Imperial'', Some []),
      (''Normalized_Name'', Some normalized)]"

definition example_espn_row :: "string \<Rightarrow> string \<Rightarrow> row" where
  "example_espn_row rk player = [(''RK'', Some rk), (''Player'', Some player), (''PTS'', None)]"

text \<open>A primary data set in which the first two rows have the same canonical key.\<close>

definition example_dup_br :: dataframe where
  "example_dup_br =
     \<lparr>columns = example_br_columns,
      rows = [example_br_row ''Al'', example_br_row ''AL'', example_br_row ''Bo'']\<rparr>"

definition example_dup_prepared :: dataframe where
  "example_dup_prepared =
     \<lparr>columns = example_br_columns @ [''Normalized_Name''],
      rows = [example_prepared_row ''Al'' ''al'', example_prepared_row ''AL'' ''al'',
              example_prepared_row ''Bo'' ''bo'']\<rparr>"

text \<open>Seven primary rows and ten secondary rows, seven of which have a match.\<close>

definition example_br10 :: dataframe where
  "example_br10 =
     \<lparr>columns = example_br_columns,
      rows = map example_br_row [''a'', ''b'', ''c'', ''d'', ''e'', ''f'', ''g'']\<rparr>"

definition example_espn10 :: dataframe where
  "example_espn10 =
     \<lparr>columns = [''RK'', ''Player'', ''PTS''],
      rows = map (\<lambda>n. example_espn_row n n)
               [''a'', ''b'', ''c'', ''d'', ''e'', ''f'', ''g'', ''h'', ''i'', ''j'']\<rparr>"

definition example_read_csv :: "string \<Rightarrow> error + dataframe" where
  "example_read_csv path =
     (if path = ''br.csv'' then Inr example_br10
      else if path = ''espn.csv'' then Inr example_espn10
      else Inl (LoadError path))"

definition example_merged10 :: "row list" where
  "example_merged10 =
     map (\<lambda>n. [(''ESPN_Rank'', Some n), (''Name'', Some n), (''ESPN_Points'', None),
                (''Born_Location'', Some []), (''Born_Date'', Some []), (''NBA_Debut'', Some []),
                (''Height_Imperial'', Some [])])
       [''a'', ''b'', ''c'', ''d'', ''e'', ''f'', ''g'']"

definition example_unmatched10 :: "row list" where
  "example_unmatched10 =
     map (\<lambda>n. [(''ESPN_Player'', Some n), (''ESPN_Rank'', Some n), (''ESPN_Points'', None),
                (''Normalized_Name'', Some n)])
       [''h'', ''i'', ''j'']"

definition example_stats10 :: "number dict" where
  "example_stats10 =
     [(''total_espn_players'', PyInt 10), (''total_br_players'', PyInt 7),
      (''exact_matches'', PyInt 7), (''fuzzy_matches'', PyInt 0), (''total_matches'', PyInt 7),
      (''unmatched'', PyInt 3), (''match_percentage'', PyFloat 70)]"

definition example_candidates :: "(string \<times> string set) list" where
  "example_candidates =
     [(''Al Cy'', {''al'', ''cy''}), (''Bo Al'', {''bo'', ''al''}), (''Al Bo'', {''al'', ''bo''})]"


section \<open>Properties\<close>

subsection \<open>Error propagation\<close>

lemma and_then_Inr: "and_then x f = Inr y \<longleftrightarrow> (\<exists>v. x = Inr v \<and> f v = Inr y)"
  by (cases x) (simp_all add: and_then_def)

subsection \<open>Load failure\<close>

text \<open>
  Claim C3.  When the load of either input data set fails, the merge engine returns an
  empty merged list, an empty unmatched list and an empty statistics dictionary; it
  does not raise.
\<close>

theorem load_failure_returns_empty:
  assumes "isl (read_csv br_csv_path) \<or> isl (read_csv espn_csv_path)"
  shows "clean_and_merge_player_data read_csv br_csv_path espn_csv_path = Inr ([], [], [])"
  using assms by (auto simp: clean_and_merge_player_data_def split: sum.splits)

theorem load_failure_returns_empty_witness:
  "clean_and_merge_player_data
     (\<lambda>path. if path = ''br.csv'' then Inr \<lparr>columns = [''Name''], rows = []\<rparr>
              else Inl (LoadError path))
     ''br.csv'' ''espn.csv'' = Inr ([], [], [])"
  by (rule load_failure_returns_empty) simp

subsection \<open>The merged record\<close>

lemma update_absent: "map_of al k = None \<Longrightarrow> AList.update k v al = al @ [(k, v)]"
  by (induction al) (auto split: if_splits)

lemma fold_add_new:
  "distinct (map fst xs) \<Longrightarrow>
   fold (\<lambda>(key, value) ordered_entry.
           if map_of ordered_entry key = None
           then AList.update key value ordered_entry else ordered_entry) xs acc
   = acc @ filter (\<lambda>(k, v). map_of acc k = None) xs"
proof (induction xs arbitrary: acc)
  case Nil
  then show ?case by simp
next
  case (Cons x xs)
  obtain k v where x: "x = (k, v)" by (cases x)
  from Cons.prems have d: "distinct (map fst xs)" and nk: "k \<notin> fst ` set xs"
    by (auto simp: x)
  let ?F = "\<lambda>(key, value) ordered_entry.
           if map_of ordered_entry key = None
           then AList.update key value ordered_entry else ordered_entry"
  show ?case
  proof (cases "map_of acc k = None")
    case True
    have u: "AList.update k v acc = acc @ [(k, v)]"
      using True by (rule update_absent)
    have flt: "filter (\<lambda>(k', v'). map_of (acc @ [(k, v)]) k' = None) xs
        = filter (\<lambda>(k', v'). map_of acc k' = None) xs"
      using nk by (intro filter_cong) (force simp: map_add_def split: option.splits)+
    have "fold ?F (x # xs) acc = fold ?F xs (acc @ [(k, v)])"
      using True by (simp add: x u)
    also have "\<dots> = (acc @ [(k, v)]) @ filter (\<lambda>(k', v'). map_of (acc @ [(k, v)]) k' = None) xs"
      by (rule Cons.IH[OF d])
    also have "\<dots> = acc @ filter (\<lambda>(k, v). map_of acc k = None) (x # xs)"
      unfolding flt using True by (simp add: x)
    finally show ?thesis .
  next
    case False
    then obtain y where y: "map_of acc k = Some y"
      by blast
    have "fold ?F (x # xs) acc = fold ?F xs acc"
      by (simp add: x y)
    also have "\<dots> = acc @ filter (\<lambda>(k, v). map_of acc k = None) xs"
      by (rule Cons.IH[OF d])
    also have "\<dots> = acc @ filter (\<lambda>(k, v). map_of acc k = None) (x # xs)"
      by (simp add: x y)
    finally show ?thesis .
  qed
qed

lemma filter_update_excluded:
  "\<not> P k \<Longrightarrow> filter (\<lambda>(k', v'). P k') (AList.update k v al) = filter (\<lambda>(k', v'). P k') al"
  by (induction al) auto

lemma filter_delete:
  "filter (\<lambda>(k', v'). P k') (AList.delete k al) = filter (\<lambda>(k', v'). k' \<noteq> k \<and> P k') al"
  by (induction al) auto

text \<open>
  Claim C1, as the code has it.  For a matched primary record (a dictionary with a
  \<open>Name\<close> field) and a secondary row with a rank \<open>RK\<close> and a metric \<open>PTS\<close>, the
  merged record starts with the rank of the secondary row, the name of the primary
  record and the metric of the secondary row, followed by the other fields of the
  primary record in their original order, without the internal field
  \<open>Normalized_Name\<close> and without a field already placed.
\<close>

theorem merged_entry_order:
  assumes "distinct (map fst br_player_info)"
    and "map_of br_player_info ''Name'' = Some name"
    and "map_of espn_row_data ''RK'' = Some rk"
    and "map_of espn_row_data ''PTS'' = Some pts"
  shows "create_ordered_merged_player_entry br_player_info espn_row_data =
     Inr ([(''ESPN_Rank'', rk), (''Name'', name), (''ESPN_Points'', pts)] @
          filter (\<lambda>(k, v). k \<noteq> ''Normalized_Name'' \<and> k \<noteq> ''ESPN_Rank'' \<and> k \<noteq> ''Name'' \<and>
                            k \<noteq> ''ESPN_Points'')
            br_player_info)"
proof -
  let ?del = "AList.delete ''Normalized_Name'' br_player_info"
  let ?pd = "AList.update ''ESPN_Points'' pts (AList.update ''ESPN_Rank'' rk ?del)"
  have pd0: "(if map_of br_player_info ''Normalized_Name'' \<noteq> None
      then AList.delete ''Normalized_Name'' br_player_info else br_player_info) = ?del"
    by (simp add: delete_id map_of_eq_None_iff)
  have dist: "distinct (map fst ?pd)"
    using assms(1) by (simp add: distinct_update distinct_delete)
  have g1: "dict_get ?pd ''ESPN_Rank'' = Inr rk"
    by (simp add: dict_get_def update_conv')
  have g2: "dict_get ?pd ''Name'' = Inr name"
    using assms(2) by (simp add: dict_get_def update_conv' delete_conv')
  have g3: "dict_get ?pd ''ESPN_Points'' = Inr pts"
    by (simp add: dict_get_def update_conv')
  let ?first = "[(''ESPN_Rank'', rk), (''Name'', name), (''ESPN_Points'', pts)]"
  let ?P = "\<lambda>k. k \<noteq> ''ESPN_Rank'' \<and> k \<noteq> ''Name'' \<and> k \<noteq> ''ESPN_Points''"
  have f: "filter (\<lambda>(k, v). map_of ?first k = None) ?pd = filter (\<lambda>(k, v). ?P k) ?pd"
    by (intro filter_cong) auto
  have "filter (\<lambda>(k, v). ?P k) ?pd = filter (\<lambda>(k, v). ?P k) ?del"
    by (simp add: filter_update_excluded)
  also have "\<dots> = filter (\<lambda>(k, v). k \<noteq> ''Normalized_Name'' \<and> ?P k) br_player_info"
    by (rule filter_delete)
  finally have r: "filter (\<lambda>(k, v). map_of ?first k = None) ?pd
      = filter (\<lambda>(k, v). k \<noteq> ''Normalized_Name'' \<and> ?P k) br_player_info"
    using f by simp
  have "create_ordered_merged_player_entry br_player_info espn_row_data =
      Inr (fold (\<lambda>(key, value) ordered_entry.
                   if map_of ordered_entry key = None
                   then AList.update key value ordered_entry else ordered_entry) ?pd ?first)"
    unfolding create_ordered_merged_player_entry_def pd0 Let_def
    using assms(3,4) g1 g2 g3 by (simp add: dict_get_def)
  also have "\<dots> = Inr (?first @ filter (\<lambda>(k, v). map_of ?first k = None) ?pd)"
    by (simp only: fold_add_new[OF dist])
  finally show ?thesis
    unfolding r by simp
qed

theorem merged_entry_order_witness:
  "create_ordered_merged_player_entry example_primary example_secondary =
     Inr [(''ESPN_Rank'', Some ''1''), (''Name'', Some ''LeBron James''),
          (''ESPN_Points'', Some ''38652''), (''Position'', Some ''F'')]"
proof -
  have 1: "distinct (map fst example_primary)"
    by (simp add: example_primary_def)
  have 2: "map_of example_primary ''Name'' = Some (Some ''LeBron James'')"
    by (simp add: example_primary_def)
  have 3: "map_of example_secondary ''RK'' = Some (Some ''1'')"
    by (simp add: example_secondary_def)
  have 4: "map_of example_secondary ''PTS'' = Some (Some ''38652'')"
    by (simp add: example_secondary_def)
  show ?thesis
    unfolding merged_entry_order[OF 1 2 3 4] by (simp add: example_primary_def)
qed

text \<open>
  Claim C1 as stated takes the name from the secondary row.  The name of the merged
  record is the name of the primary record, which differs from the name in the
  secondary row here.
\<close>

theorem merged_entry_name_counterexample:
  "create_ordered_merged_player_entry example_primary example_secondary =
     Inr [(''ESPN_Rank'', Some ''1''), (''Name'', Some ''LeBron James''),
          (''ESPN_Points'', Some ''38652''), (''Position'', Some ''F'')]
   \<and> row_cell example_secondary ''Player'' = Some ''LEBRON JAMES''
   \<and> create_ordered_merged_player_entry example_primary example_secondary \<noteq>
     Inr [(''ESPN_Rank'', Some ''1''), (''Name'', Some ''LEBRON JAMES''),
          (''ESPN_Points'', Some ''38652''), (''Position'', Some ''F'')]"
  by code_simp

subsection \<open>The exact-match index\<close>

lemma fold_br_lookup_step:
  "map_of (fold br_lookup_step rs acc) k =
     (case map_of acc k of Some v \<Rightarrow> Some v
      | None \<Rightarrow> if k = [] then None else find (\<lambda>r. row_text r ''Normalized_Name'' = k) rs)"
proof (induction rs arbitrary: acc)
  case Nil
  then show ?case by (simp split: option.splits)
next
  case (Cons r rs)
  have "map_of (br_lookup_step r acc) k =
      (case map_of acc k of Some v \<Rightarrow> Some v
       | None \<Rightarrow> if k \<noteq> [] \<and> row_text r ''Normalized_Name'' = k then Some r else None)"
    by (auto simp: br_lookup_step_def Let_def update_conv' split: option.splits)
  then show ?case
    by (simp add: Cons.IH[of "br_lookup_step r acc"] split: option.splits)
qed

lemma df_apply_Inr:
  "df_apply col f df = Inr df' \<Longrightarrow>
     df' = df\<lparr>rows := map (map (\<lambda>(k, v). if k = col then (k, Some (f v)) else (k, v))) (rows df)\<rparr>"
  by (simp add: df_apply_def split: if_splits)

lemma row_cell_apply:
  "k \<noteq> col \<Longrightarrow> row_cell (map (\<lambda>(k, v). if k = col then (k, Some (f v)) else (k, v)) r) k = row_cell r k"
  by (induction r) (auto simp: row_cell_def)

lemma row_cell_drop:
  "k \<notin> set cols \<Longrightarrow> row_cell (filter (\<lambda>(k, v). k \<notin> set cols) r) k = row_cell r k"
  by (induction r) (auto simp: row_cell_def)

lemma row_cell_update:
  "row_cell (AList.update k' v r) k = (if k = k' then v else row_cell r k)"
  by (simp add: row_cell_def update_conv')

lemma row_text_update:
  "row_text (AList.update k (Some s) r) k = s"
  by (simp add: row_text_def update_conv')

lemma df_apply_keeps:
  assumes "df_apply col f df = Inr df'" "k \<noteq> col"
  shows "list_all2 (\<lambda>r0 r. row_cell r k = row_cell r0 k) (rows df) (rows df')"
  unfolding df_apply_Inr[OF assms(1)] using assms(2)
  by (simp add: list_all2_map2 row_cell_apply list.rel_refl)

lemma df_drop_keeps:
  assumes "k \<notin> set cols"
  shows "list_all2 (\<lambda>r0 r. row_cell r k = row_cell r0 k) (rows df) (rows (df_drop cols df))"
  using assms by (simp add: df_drop_def list_all2_map2 row_cell_drop list.rel_refl)

lemma df_assign_keeps:
  assumes "df_assign new src f df = Inr df'" "k \<noteq> new"
  shows "list_all2 (\<lambda>r0 r. row_cell r k = row_cell r0 k \<and> row_text r new = f (row_cell r0 src))
           (rows df) (rows df')"
proof -
  have "rows df' = map (\<lambda>r. AList.update new (Some (f (row_cell r src))) r) (rows df)"
    using assms(1) by (auto simp: df_assign_def split: if_splits)
  then show ?thesis
    using assms(2) by (simp add: list_all2_map2 row_cell_update row_text_update list.rel_refl)
qed

lemma prepare_br_rows:
  assumes "prepare_br br_df0 = Inr br_df"
  shows "list_all2 (\<lambda>r0 r. row_cell r ''Name'' = row_cell r0 ''Name'' \<and>
            row_text r ''Normalized_Name'' = normalize_name (row_cell r0 ''Name''))
          (rows br_df0) (rows br_df)"
proof -
  let ?K = "\<lambda>r0 r. row_cell r ''Name'' = row_cell r0 ''Name''"
  from assms obtain df1 df2 df3 df4 where
    1: "df_apply ''Born_Location'' format_born_location br_df0 = Inr df1" and
    2: "df_apply ''Born_Date'' standardize_date_format df1 = Inr df2" and
    3: "df_apply ''NBA_Debut'' standardize_date_format df2 = Inr df3" and
    4: "df_apply ''Height_Imperial'' standardize_height_imperial df3 = Inr df4" and
    5: "df_assign ''Normalized_Name'' ''Name'' normalize_name (df_drop columns_to_remove_br df4) = Inr br_df"
    unfolding prepare_br_def and_then_Inr by blast
  have k1: "list_all2 ?K (rows br_df0) (rows df1)" by (rule df_apply_keeps[OF 1]) simp
  have k2: "list_all2 ?K (rows df1) (rows df2)" by (rule df_apply_keeps[OF 2]) simp
  have k3: "list_all2 ?K (rows df2) (rows df3)" by (rule df_apply_keeps[OF 3]) simp
  have k4: "list_all2 ?K (rows df3) (rows df4)" by (rule df_apply_keeps[OF 4]) simp
  have k5: "list_all2 ?K (rows df4) (rows (df_drop columns_to_remove_br df4))"
    by (rule df_drop_keeps) (simp add: columns_to_remove_br_def)
  have k6: "list_all2 (\<lambda>r0 r. row_cell r ''Name'' = row_cell r0 ''Name'' \<and>
            row_text r ''Normalized_Name'' = normalize_name (row_cell r0 ''Name''))
          (rows (df_drop columns_to_remove_br df4)) (rows br_df)"
    by (rule df_assign_keeps[OF 5]) simp
  have t: "list_all2 ?K xs ys \<Longrightarrow> list_all2 ?K ys zs \<Longrightarrow> list_all2 ?K xs zs" for xs ys zs
    by (auto simp: list_all2_conv_all_nth)
  have "list_all2 ?K (rows br_df0) (rows (df_drop columns_to_remove_br df4))"
    by (rule t[OF t[OF t[OF t[OF k1 k2] k3] k4] k5])
  with k6 show ?thesis
    by (auto simp: list_all2_conv_all_nth)
qed

text \<open>
  Claim C4.  The exact-match index obeys first-seen-wins.  The processing of the primary
  data set keeps the rows and their names in data set order, and under every non-empty
  canonical key the index holds the first row, in this order, whose name normalizes to
  the key: rows that come later with the same key are not retrievable.  No row is stored
  under the empty key.
\<close>

theorem br_lookup_first_seen_wins:
  assumes "prepare_br br_df0 = Inr br_df"
  shows "map (\<lambda>r. row_cell r ''Name'') (rows br_df) = map (\<lambda>r. row_cell r ''Name'') (rows br_df0) \<and>
     map_of (build_br_lookup (rows br_df)) key =
       (if key = [] then None
        else find (\<lambda>r. normalize_name (row_cell r ''Name'') = key) (rows br_df))"
proof -
  have r: "list_all2 (\<lambda>r0 r. row_cell r ''Name'' = row_cell r0 ''Name'' \<and>
            row_text r ''Normalized_Name'' = normalize_name (row_cell r0 ''Name''))
          (rows br_df0) (rows br_df)"
    using assms by (rule prepare_br_rows)
  have n: "map (\<lambda>r. row_cell r ''Name'') (rows br_df) = map (\<lambda>r. row_cell r ''Name'') (rows br_df0)"
    using r by (induction rule: list_all2_induct) simp_all
  have "find (\<lambda>r. row_text r ''Normalized_Name'' = key) (rows br_df)
      = find (\<lambda>r. normalize_name (row_cell r ''Name'') = key) (rows br_df)"
    using r by (induction rule: list_all2_induct) simp_all
  then show ?thesis
    using n by (simp add: build_br_lookup_def fold_br_lookup_step)
qed

theorem br_lookup_first_seen_wins_witness:
  "prepare_br example_dup_br = Inr example_dup_prepared
   \<and> map_of (build_br_lookup (rows example_dup_prepared)) ''al''
       = Some (example_prepared_row ''Al'' ''al'')
   \<and> map_of (build_br_lookup (rows example_dup_prepared)) [] = None"
proof -
  have h: "prepare_br example_dup_br = Inr example_dup_prepared"
    by code_simp
  have f: "find (\<lambda>r. normalize_name (row_cell r ''Name'') = ''al'') (rows example_dup_prepared)
      = Some (example_prepared_row ''Al'' ''al'')"
    by code_simp
  from br_lookup_first_seen_wins[OF h, of "''al''"] br_lookup_first_seen_wins[OF h, of "[]"] f h
  show ?thesis
    by simp
qed

subsection \<open>The match percentage\<close>

lemma df_assign_length:
  "df_assign new src f df = Inr df' \<Longrightarrow> length (rows df') = length (rows df)"
  by (auto simp: df_assign_def split: if_splits)

lemma merge_loaded_stats:
  assumes "merge_loaded br_df espn_df = Inr (merged, unmatched, stats)"
  shows "map_of stats ''match_percentage'' =
           Some (PyFloat (match_percentage (length merged) (length (rows espn_df))))"
proof -
  from assms obtain br espn st where
    e: "df_assign ''Normalized_ESPN_Name'' ''Player'' normalize_name espn_df = Inr espn" and
    r: "(merged, unmatched, stats) = (merged_data st, unmatched_players st, make_stats espn br st)"
    unfolding merge_loaded_def and_then_Inr Let_def by auto
  from r have "stats = make_stats espn br st" and "merged = merged_data st"
    by simp_all
  then show ?thesis
    by (simp add: make_stats_def df_assign_length[OF e])
qed

text \<open>
  Claim C9.  For two loaded data sets, the \<open>match_percentage\<close> of the statistics is the
  number of merged records divided by the number of secondary rows, times 100, in
  Python's floating-point arithmetic, and 0.0 for a secondary data set without rows.
  Seven merged records for ten secondary rows give exactly 70.0.
\<close>

theorem match_percentage_formula:
  assumes "read_csv br_csv_path = Inr br_df"
    and "read_csv espn_csv_path = Inr espn_df"
    and "clean_and_merge_player_data read_csv br_csv_path espn_csv_path
           = Inr (merged, unmatched, stats)"
  shows "map_of stats ''match_percentage'' =
           Some (PyFloat (if length (rows espn_df) = 0 then 0
                          else float_mul (int_truediv (int (length merged))
                                            (int (length (rows espn_df))))
                                 (float_of_int 100)))
         \<and> float_mul (int_truediv 7 10) (float_of_int 100) = 70"
proof -
  from assms have "merge_loaded br_df espn_df = Inr (merged, unmatched, stats)"
    by (simp add: clean_and_merge_player_data_def)
  then have "map_of stats ''match_percentage'' =
           Some (PyFloat (match_percentage (length merged) (length (rows espn_df))))"
    by (rule merge_loaded_stats)
  moreover have "float_mul (int_truediv 7 10) (float_of_int 100) = 70"
    by code_simp
  ultimately show ?thesis
    by (simp add: match_percentage_def)
qed

theorem match_percentage_formula_witness:
  "clean_and_merge_player_data example_read_csv ''br.csv'' ''espn.csv''
     = Inr (example_merged10, example_unmatched10, example_stats10)
   \<and> length example_merged10 = 7 \<and> length (rows example_espn10) = 10
   \<and> map_of example_stats10 ''match_percentage'' = Some (PyFloat 70)"
proof -
  have 1: "example_read_csv ''br.csv'' = Inr example_br10"
    by (simp add: example_read_csv_def)
  have 2: "example_read_csv ''espn.csv'' = Inr example_espn10"
    by (simp add: example_read_csv_def)
  have 3: "clean_and_merge_player_data example_read_csv ''br.csv'' ''espn.csv''
     = Inr (example_merged10, example_unmatched10, example_stats10)"
    by code_simp
  have l: "length example_merged10 = 7" "length (rows example_espn10) = 10"
    by (simp_all add: example_merged10_def example_espn10_def)
  from match_percentage_formula[OF 1 2 3] 3 l show ?thesis
    by simp
qed

subsection \<open>Floating-point rounding\<close>










subsection \<open>The fuzzy matcher\<close>




lemma count_matches_two:
  "count_matches [t1, t2] ps = (if t1 \<in> ps then 1 else 0) + (if t2 \<in> ps then 1 else 0)"
  by (simp add: count_matches_def)

lemma min_match_score_two:
  "min_match_score [t1, t2] default_threshold = 3602879701896397 / 2251799813685248"
proof -
  have "float_mul (float_of_int 2) default_threshold = 3602879701896397 / 2251799813685248"
    by code_simp
  then show ?thesis by (simp add: min_match_score_def)
qed

lemma meets_threshold_two:
  "meets_threshold [t1, t2] default_threshold ps \<longleftrightarrow> t1 \<in> ps \<and> t2 \<in> ps"
  by (auto simp: meets_threshold_def min_match_score_two count_matches_two)

lemma match_score_two:
  "match_score [t1, t2] ps =
     (if t1 \<in> ps \<and> t2 \<in> ps then 1 else if t1 \<in> ps \<or> t2 \<in> ps then 1 / 2 else 0)"
proof -
  have "int_truediv 2 2 = 1" "int_truediv 1 2 = 1 / 2" "int_truediv 0 2 = 0"
    by code_simp+
  then show ?thesis
    by (simp add: match_score_def count_matches_two)
qed

lemma fuzzy_loop_two:
  assumes "hi < 1"
  shows "fuzzy_loop [t1, t2] (min_match_score [t1, t2] default_threshold) cands best hi =
     (case find (\<lambda>(name, ps). t1 \<in> ps \<and> t2 \<in> ps) cands of
        None \<Rightarrow> best | Some (name, ps) \<Rightarrow> Some name)"
proof (induction cands)
  case Nil
  then show ?case by simp
next
  case (Cons c cands)
  obtain nm ps where c: "c = (nm, ps)" by (cases c)
  have m: "min_match_score [t1, t2] default_threshold \<le> of_nat (count_matches [t1, t2] ps)
      \<longleftrightarrow> t1 \<in> ps \<and> t2 \<in> ps"
    by (auto simp: min_match_score_two count_matches_two)
  show ?case
    using assms by (auto simp: c Cons.IH m match_score_two Let_def)
qed

lemma fuzzy_name_match_two:
  assumes "py_split (normalize_name espn_name) = [t1, t2]"
  shows "fuzzy_name_match espn_name cands default_threshold =
     (case find (\<lambda>(name, ps). t1 \<in> ps \<and> t2 \<in> ps) cands of
        None \<Rightarrow> None | Some (name, ps) \<Rightarrow> Some name)"
proof -
  from assms have "normalize_name espn_name \<noteq> []"
    by (auto simp: py_split_def)
  then show ?thesis
    using assms by (simp add: fuzzy_name_match_def Let_def fuzzy_loop_two)
qed

lemma find_skip:
  "\<not> P x \<Longrightarrow> find P (xs @ x # ys) = find P (xs @ ys)"
  by (induction xs) auto

lemma find_first:
  "P x \<Longrightarrow> \<forall>y \<in> set xs. \<not> P y \<Longrightarrow> find P (xs @ x # ys) = Some x"
  by (induction xs) auto

text \<open>
  Claim C5.  For the threshold 0.8 and a secondary name of two tokens: a candidate that
  holds exactly one of the two tokens has the score 0.5, does not meet the threshold,
  and the result is the same as without it; a candidate that holds both tokens has the
  score 1.0 and, when no earlier candidate holds both, is the result whatever follows
  it in the candidate list.
\<close>

theorem fuzzy_threshold_boundary:
  assumes "py_split (normalize_name espn_name) = [t1, t2]"
  shows "((t1 \<in> parts) \<noteq> (t2 \<in> parts) \<longrightarrow>
           match_score [t1, t2] parts = 1 / 2 \<and>
           \<not> meets_threshold [t1, t2] default_threshold parts \<and>
           fuzzy_name_match espn_name (before @ (name, parts) # after) default_threshold
             = fuzzy_name_match espn_name (before @ after) default_threshold)
       \<and> (t1 \<in> parts \<and> t2 \<in> parts \<and> (\<forall>(n, qs) \<in> set before. \<not> (t1 \<in> qs \<and> t2 \<in> qs)) \<longrightarrow>
           match_score [t1, t2] parts = 1 \<and>
           fuzzy_name_match espn_name (before @ (name, parts) # after) default_threshold
             = Some name)"
proof (intro conjI impI)
  assume a: "(t1 \<in> parts) \<noteq> (t2 \<in> parts)"
  then show "match_score [t1, t2] parts = 1 / 2"
    by (auto simp: match_score_two)
  from a show "\<not> meets_threshold [t1, t2] default_threshold parts"
    by (auto simp: meets_threshold_two)
  from a have "\<not> (case (name, parts) of (name, ps) \<Rightarrow> t1 \<in> ps \<and> t2 \<in> ps)"
    by auto
  then have "find (\<lambda>(name, ps). t1 \<in> ps \<and> t2 \<in> ps) (before @ (name, parts) # after)
      = find (\<lambda>(name, ps). t1 \<in> ps \<and> t2 \<in> ps) (before @ after)"
    by (rule find_skip)
  then show "fuzzy_name_match espn_name (before @ (name, parts) # after) default_threshold
             = fuzzy_name_match espn_name (before @ after) default_threshold"
    by (simp only: fuzzy_name_match_two[OF assms])
next
  assume a: "t1 \<in> parts \<and> t2 \<in> parts \<and> (\<forall>(n, qs) \<in> set before. \<not> (t1 \<in> qs \<and> t2 \<in> qs))"
  then show "match_score [t1, t2] parts = 1"
    by (simp add: match_score_two)
  from a have "find (\<lambda>(name, ps). t1 \<in> ps \<and> t2 \<in> ps) (before @ (name, parts) # after)
      = Some (name, parts)"
    by (intro find_first) auto
  then show "fuzzy_name_match espn_name (before @ (name, parts) # after) default_threshold
             = Some name"
    by (simp add: fuzzy_name_match_two[OF assms])
qed

theorem fuzzy_threshold_boundary_witness:
  "fuzzy_name_match (Some ''Al Bo'') example_candidates default_threshold = Some ''Bo Al''
   \<and> match_score [''al'', ''bo''] {''bo'', ''al''} = 1
   \<and> match_score [''al'', ''bo''] {''al'', ''cy''} = 1 / 2
   \<and> fuzzy_name_match (Some ''Al Bo'') [(''Al Cy'', {''al'', ''cy''})] default_threshold
       = fuzzy_name_match (Some ''Al Bo'') [] default_threshold"
proof -
  have p: "py_split (normalize_name (Some ''Al Bo'')) = [''al'', ''bo'']"
    by code_simp
  have e: "example_candidates = [(''Al Cy'', {''al'', ''cy''})] @ (''Bo Al'', {''bo'', ''al''})
      # [(''Al Bo'', {''al'', ''bo''})]"
    by (simp add: example_candidates_def)
  have 1: "(''al'' \<in> {''al'', ''cy''}) \<noteq> (''bo'' \<in> {''al'', ''cy''})"
    by simp
  have 2: "''al'' \<in> {''bo'', ''al''} \<and> ''bo'' \<in> {''bo'', ''al''} \<and>
      (\<forall>(n, qs) \<in> set [(''Al Cy'', {''al'', ''cy''})]. \<not> (''al'' \<in> qs \<and> ''bo'' \<in> qs))"
    by simp
  from fuzzy_threshold_boundary[OF p, of "{''al'', ''cy''}" "[]" "''Al Cy''" "[]"] 1
  have a: "match_score [''al'', ''bo''] {''al'', ''cy''} = 1 / 2"
    "fuzzy_name_match (Some ''Al Bo'') [(''Al Cy'', {''al'', ''cy''})] default_threshold
       = fuzzy_name_match (Some ''Al Bo'') [] default_threshold"
    by simp_all
  from fuzzy_threshold_boundary[OF p, of "{''bo'', ''al''}" "[(''Al Cy'', {''al'', ''cy''})]"
      "''Bo Al''" "[(''Al Bo'', {''al'', ''bo''})]"] 2
  have b: "match_score [''al'', ''bo''] {''bo'', ''al''} = 1"
    "fuzzy_name_match (Some ''Al Bo'') example_candidates default_threshold = Some ''Bo Al''"
    unfolding e by blast+
  from a b show ?thesis by simp
qed

subsection \<open>The location formatter\<close>

lemma space_not_upper: "is_space c \<Longrightarrow> \<not> is_upper c"
  by (auto simp: is_space_def is_upper_def between_def)

lemma lower_char_space: "is_space c \<Longrightarrow> lower_char c = c"
  by (simp add: lower_char_def space_not_upper)

lemma not_space_i: "\<not> is_space CHR ''i''" and not_space_n: "\<not> is_space CHR ''n''"
  by (simp_all add: is_space_def between_def code_def)

lemma py_strip_cons2:
  assumes "\<not> is_space c1" "\<not> is_space c2"
  shows "py_strip (c1 # c2 # rest) = c1 # c2 # py_rstrip rest"
proof -
  have "dropWhile is_space (rev rest @ [c2, c1]) = dropWhile is_space (rev rest) @ [c2, c1]"
    using assms(2) by (induction "rev rest" arbitrary: rest) (auto simp: dropWhile_append)
  then show ?thesis
    using assms(1) by (simp add: py_strip_def py_lstrip_def py_rstrip_def)
qed

lemma re_sub_born_prefix_inner: "re_sub RE_BORN_PREFIX repl (Some p) s = s"
  by (induction s arbitrary: p) (simp_all add: RE_BORN_PREFIX_def)

lemma drop_takeWhile_length: "drop (length (takeWhile P xs)) xs = dropWhile P xs"
  by (induction xs) auto

lemma re_sub_born_prefix:
  assumes "lower_char c1 = CHR ''i''" "lower_char c2 = CHR ''n''"
  shows "re_sub RE_BORN_PREFIX [] None (c1 # c2 # r) = born_prefix_rest r"
proof -
  define n1 where "n1 = length (takeWhile is_space r)"
  define n2 where "n2 = (case dropWhile is_space r of [] \<Rightarrow> 0
      | c # r2 \<Rightarrow> if born_artifact c then 1 + length (takeWhile is_space r2) else 0)"
  have m: "RE_BORN_PREFIX None (c1 # c2 # r) = Some (Suc (Suc (n1 + n2)))"
    using assms by (simp add: RE_BORN_PREFIX_def Let_def n1_def n2_def)
  have "re_sub RE_BORN_PREFIX [] None (c1 # c2 # r) = drop (n1 + n2) r"
    by (simp add: m re_sub_born_prefix_inner)
  also have "\<dots> = drop n2 (dropWhile is_space r)"
    by (simp add: n1_def add.commute[of _ n2] drop_takeWhile_length flip: drop_drop)
  also have "\<dots> = born_prefix_rest r"
  proof (cases "dropWhile is_space r")
    case Nil
    show ?thesis
      unfolding n2_def born_prefix_rest_def Nil by simp
  next
    case (Cons c r2)
    show ?thesis
      unfolding n2_def born_prefix_rest_def Cons by (simp add: drop_takeWhile_length)
  qed
  finally show ?thesis .
qed

text \<open>
  Claim C10.  The location formatter removes a leading \<open>in\<close> as a prefix of the string,
  not as a token.  For every location whose first two characters are \<open>i\<close> and \<open>n\<close> in
  any letter case, the result is computed from the text behind these two characters
  alone: what the prefix pattern leaves of it, with whitespace collapsed, the commas
  spaced and the ends stripped.  When the third character is neither whitespace nor an
  artifact character, as in a longer word, nothing more is removed; "Indiana, USA"
  gives "diana, USA".
\<close>

theorem born_prefix_not_whole_token:
  assumes "lower_char c1 = CHR ''i''" "lower_char c2 = CHR ''n''"
  shows "format_born_location (Some (c1 # c2 # rest)) =
           py_strip (re_sub RE_COMMA_SPACE '', '' None
             (re_sub RE_MULTIPLE_SPACES '' '' None (born_prefix_rest (py_rstrip rest))))
       \<and> (\<not> is_space c3 \<and> \<not> born_artifact c3 \<longrightarrow> born_prefix_rest (c3 # tail) = c3 # tail)"
proof -
  have s: "\<not> is_space c1" "\<not> is_space c2"
    using assms lower_char_space not_space_i not_space_n by metis+
  have a: "re_sub RE_BORN_PREFIX [] None (c1 # c2 # py_rstrip rest)
      = born_prefix_rest (py_rstrip rest)"
    using assms by (rule re_sub_born_prefix)
  have "format_born_location (Some (c1 # c2 # rest)) =
           py_strip (re_sub RE_COMMA_SPACE '', '' None
             (re_sub RE_MULTIPLE_SPACES '' '' None (born_prefix_rest (py_rstrip rest))))"
    unfolding format_born_location_def Let_def option.case py_strip_cons2[OF s] a ..
  moreover have "\<not> is_space c3 \<and> \<not> born_artifact c3 \<longrightarrow> born_prefix_rest (c3 # tail) = c3 # tail"
    by (simp add: born_prefix_rest_def)
  ultimately show ?thesis ..
qed

theorem born_prefix_not_whole_token_witness:
  "format_born_location (Some ''Indiana, USA'') = ''diana, USA''
   \<and> born_prefix_rest ''diana, USA'' = ''diana, USA''"
proof -
  have 1: "lower_char CHR ''I'' = CHR ''i''" and 2: "lower_char CHR ''n'' = CHR ''n''"
    by code_simp+
  have 3: "\<not> is_space CHR ''d'' \<and> \<not> born_artifact CHR ''d''"
    by code_simp
  have r: "py_rstrip ''diana, USA'' = ''diana, USA''"
    by code_simp
  have t: "py_strip (re_sub RE_COMMA_SPACE '', '' None
             (re_sub RE_MULTIPLE_SPACES '' '' None ''diana, USA'')) = ''diana, USA''"
    by code_simp
  from born_prefix_not_whole_token[OF 1 2, of "''diana, USA''" "CHR ''d''" "''iana, USA''"] 3
  have b: "born_prefix_rest ''diana, USA'' = ''diana, USA''"
    and f: "format_born_location (Some ''Indiana, USA'') =
           py_strip (re_sub RE_COMMA_SPACE '', '' None
             (re_sub RE_MULTIPLE_SPACES '' '' None (born_prefix_rest (py_rstrip ''diana, USA''))))"
    by simp_all
  show ?thesis
    using f b r t by simp
qed

subsection \<open>Character classes and stripping\<close>

lemmas char_class_defs = is_space_def is_digit_def is_upper_def is_lower_def is_word_def between_def

lemma digit_word: "is_digit c \<Longrightarrow> is_word c"
  by (simp add: is_word_def)

lemma word_not_space: "is_word c \<Longrightarrow> \<not> is_space c"
  by (auto simp: char_class_defs)

lemma digit_not_space: "is_digit c \<Longrightarrow> \<not> is_space c"
  by (simp add: digit_word word_not_space)

lemma punct_classes:
  "\<not> is_word CHR '' ''" "is_space CHR '' ''"
  "\<not> is_digit CHR '',''" "\<not> is_space CHR '',''" "\<not> is_word CHR '',''"
  "\<not> is_digit CHR ''-''" "\<not> is_space CHR ''-''" "\<not> is_word CHR ''-''"
  "\<not> is_digit CHR ''/''" "\<not> is_space CHR ''/''" "\<not> is_word CHR ''/''"
  by (simp_all add: char_class_defs code_def)

lemma upper_word: "is_upper c \<Longrightarrow> is_word c"
  by (simp add: is_word_def)

lemma lower_char_word: "is_word (lower_char c) \<Longrightarrow> is_word c"
  by (cases "is_upper c") (simp_all add: lower_char_def upper_word)

lemma py_lower_word: "list_all is_word (py_lower s) \<Longrightarrow> list_all is_word s"
  by (induction s) (auto simp: py_lower_def lower_char_word)

lemma py_rstrip_snoc: "\<not> is_space c \<Longrightarrow> py_rstrip (s @ [c]) = s @ [c]"
  by (simp add: py_rstrip_def)

lemma py_strip_id:
  assumes "s \<noteq> []" "\<not> is_space (hd s)" "\<not> is_space (last s)"
  shows "py_strip s = s"
proof -
  from assms(1,2) have l: "py_lstrip s = s"
    by (cases s) (simp_all add: py_lstrip_def)
  from assms(1) obtain t c where s: "s = t @ [c]"
    by (metis rev_exhaust)
  with assms(3) have "py_rstrip s = s"
    by (simp add: py_rstrip_snoc)
  with l show ?thesis by (simp add: py_strip_def)
qed

lemma py_strip_empty: "py_strip [] = []"
  by (simp add: py_strip_def py_lstrip_def py_rstrip_def)

lemma month_keys_words:
  "list_all (\<lambda>(k, v). k \<noteq> [] \<and> list_all is_word k) MONTH_TO_NUM_MAP"
  by code_simp

lemma month_key_word:
  assumes "map_of MONTH_TO_NUM_MAP (py_lower month) = Some num"
  shows "month \<noteq> []" "list_all is_word month"
proof -
  from assms have "(py_lower month, num) \<in> set MONTH_TO_NUM_MAP"
    by (rule map_of_SomeD)
  with month_keys_words have k: "py_lower month \<noteq> [] \<and> list_all is_word (py_lower month)"
    by (auto simp: list_all_iff)
  then show "month \<noteq> []" by (auto simp: py_lower_def)
  from k show "list_all is_word month" by (simp add: py_lower_word)
qed

lemma takeWhile_stop:
  "list_all P xs \<Longrightarrow> \<not> P y \<Longrightarrow> takeWhile P (xs @ y # ys) = xs"
  by (induction xs) auto

lemma dropWhile_stop:
  "list_all P xs \<Longrightarrow> \<not> P y \<Longrightarrow> dropWhile P (xs @ y # ys) = y # ys"
  by (induction xs) auto

lemma digits_n_exact:
  "list_all is_digit ds \<Longrightarrow> length ds = n \<Longrightarrow> digits_n n (ds @ r) = Some (ds, r)"
  by (simp add: digits_n_def)

lemma digits_n_short:
  assumes "length ds < n" "\<not> is_digit c"
  shows "digits_n n (ds @ c # r) = None"
proof -
  from assms(1) obtain k where k: "n - length ds = Suc k"
    by (metis Suc_diff_Suc)
  show ?thesis
    using assms(2) by (simp add: digits_n_def k)
qed


lemma py_zfill_2: "length ds = 2 \<Longrightarrow> py_zfill 2 ds = ds"
  by (simp add: py_zfill_def)

lemma first_match_Cons: "first_match f (x # xs) = (case f x of Some y \<Rightarrow> Some y | None \<Rightarrow> first_match f xs)"
  by simp

text \<open>The candidate splits of \<open>\d{1,2}\<close> for one or two digits followed by a
  non-digit.\<close>

lemma digits_1_2_exact:
  assumes "list_all is_digit ds" "length ds = 1 \<or> length ds = 2" "\<not> is_digit c"
  shows "digits_1_2 (ds @ c # r) =
     (if length ds = 2 then [(ds, c # r), ([hd ds], tl ds @ c # r)] else [(ds, c # r)])"
proof -
  from assms(2) consider d1 where "ds = [d1]" | d1 d2 where "ds = [d1, d2]"
    by (metis One_nat_def Suc_length_conv length_0_conv numeral_2_eq_2)
  then show ?thesis
  proof cases
    case 1
    then show ?thesis
      using assms by (simp add: digits_1_2_def digits_n_def List.map_filter_simps)
  next
    case 2
    then show ?thesis
      using assms by (simp add: digits_1_2_def digits_n_def List.map_filter_simps)
  qed
qed

lemma month_day_year_match:
  assumes m: "month \<noteq> []" "list_all is_word month"
    and d: "list_all is_digit day" "length day = 1 \<or> length day = 2"
    and y: "list_all is_digit year" "length year = 4"
  shows "RE_MONTH_DAY_YEAR_match (month @ '' '' @ day @ '', '' @ year) = Some (month, day, year)"
proof -
  let ?r1 = "day @ CHR '','' # CHR '' '' # year"
  have s: "month @ '' '' @ day @ '', '' @ year = month @ CHR '' '' # ?r1"
    by simp
  from d have dne: "day \<noteq> []" by auto
  then have hd_day: "\<not> is_space (hd ?r1)"
    using d(1) by (cases day) (simp_all add: digit_not_space)
  have tw: "takeWhile is_word (month @ CHR '' '' # ?r1) = month"
    and dw: "dropWhile is_word (month @ CHR '' '' # ?r1) = CHR '' '' # ?r1"
    using m(2) by (simp_all add: takeWhile_stop dropWhile_stop punct_classes)
  have ts: "takeWhile is_space (CHR '' '' # ?r1) = '' ''"
    and ds: "dropWhile is_space (CHR '' '' # ?r1) = ?r1"
    using hd_day dne by (cases day; simp add: punct_classes)+
  have y4: "digits_n 4 year = Some (year, [])"
    using digits_n_exact[OF y, of "[]"] by simp
  have tail: "RE_MONTH_DAY_YEAR_tail month (day, CHR '','' # CHR '' '' # year) = Some (month, day, year)"
    using y(1,2) y4 by (cases year) (simp_all add: RE_MONTH_DAY_YEAR_tail_def punct_classes digit_not_space)
  have "first_match (RE_MONTH_DAY_YEAR_tail month) (digits_1_2 ?r1) = Some (month, day, year)"
    using tail by (simp add: digits_1_2_exact[OF d punct_classes(3)])
  then show ?thesis
    unfolding s RE_MONTH_DAY_YEAR_match_def Let_def tw dw ts ds using m(1) by simp
qed

subsection \<open>The date formatter\<close>

lemma month_day_year_no_space:
  assumes "list_all is_word w" "\<not> is_word c" "\<not> is_space c"
  shows "RE_MONTH_DAY_YEAR_match (w @ c # r) = None"
  using assms by (simp add: RE_MONTH_DAY_YEAR_match_def Let_def takeWhile_stop dropWhile_stop)

lemma digits_words: "list_all is_digit ds \<Longrightarrow> list_all is_word ds"
  by (induction ds) (auto simp: digit_word)

lemma date_month_day_year:
  assumes t: "map_of MONTH_TO_NUM_MAP (py_lower month) = Some month_num"
    and d: "list_all is_digit day" "length day = 1 \<or> length day = 2"
    and y: "list_all is_digit year" "length year = 4"
  shows "standardize_date_format (Some (month @ '' '' @ day @ '', '' @ year))
     = year @ ''-'' @ month_num @ ''-'' @ py_zfill 2 day"
proof -
  let ?s = "month @ '' '' @ day @ '', '' @ year"
  note m = month_key_word[OF t]
  from y(2) have yne: "year \<noteq> []" by auto
  have "hd ?s = hd month" using m(1) by simp
  moreover have "is_word (hd month)" using m by (cases month) simp_all
  ultimately have h: "\<not> is_space (hd ?s)" by (simp add: word_not_space)
  have "last ?s = last year" using yne by simp
  moreover have "is_digit (last year)" using y(1) yne by (simp add: list_all_iff)
  ultimately have l: "\<not> is_space (last ?s)" by (simp add: digit_not_space)
  have s: "py_strip ?s = ?s"
    using h l by (intro py_strip_id) simp_all
  show ?thesis
    unfolding standardize_date_format_def option.case Let_def s
      month_day_year_match[OF m d y]
    by (simp add: t)
qed

lemma date_iso:
  assumes "list_all is_digit (yyyy @ mm @ dd)" "length yyyy = 4" "length mm = 2" "length dd = 2"
  shows "standardize_date_format (Some (yyyy @ ''-'' @ mm @ ''-'' @ dd))
     = yyyy @ ''-'' @ mm @ ''-'' @ dd"
proof -
  let ?s = "yyyy @ ''-'' @ mm @ ''-'' @ dd"
  from assms have dg: "list_all is_digit yyyy" "list_all is_digit mm" "list_all is_digit dd"
    by simp_all
  from assms(2) have yne: "yyyy \<noteq> []" by auto
  from assms(4) have dne: "dd \<noteq> []" by auto
  have "is_digit (hd yyyy)" using dg(1) yne by (cases yyyy) simp_all
  then have h: "\<not> is_space (hd ?s)" using yne by (simp add: digit_not_space)
  have "is_digit (last dd)" using dg(3) dne by (simp add: list_all_iff)
  then have l: "\<not> is_space (last ?s)" using dne by (simp add: digit_not_space)
  have s: "py_strip ?s = ?s"
    using h l by (intro py_strip_id) simp_all
  have n: "RE_MONTH_DAY_YEAR_match ?s = None"
    using month_day_year_no_space[OF digits_words[OF dg(1)] punct_classes(8,7)] by simp
  have i: "RE_YYYY_MM_DD_match ?s"
    using digits_n_exact[OF dg(1) assms(2), of "''-'' @ mm @ ''-'' @ dd"]
      digits_n_exact[OF dg(2) assms(3), of "''-'' @ dd"]
      digits_n_exact[OF dg(3) assms(4), of "[]"]
    by (simp add: RE_YYYY_MM_DD_match_def hyphen_def)
  show ?thesis
    unfolding standardize_date_format_def option.case Let_def s n using i by simp
qed

lemma mm_dd_yyyy_match:
  assumes m: "list_all is_digit m" "length m = 1 \<or> length m = 2"
    and d: "list_all is_digit d" "length d = 1 \<or> length d = 2"
    and y: "list_all is_digit y" "length y = 4"
  shows "RE_MM_DD_YYYY_match (m @ ''/'' @ d @ ''/'' @ y) = Some (m, d, y)"
proof -
  have y4: "digits_n 4 y = Some (y, [])"
    using digits_n_exact[OF y, of "[]"] by simp
  have dd: "RE_MM_DD_YYYY_day m (d, CHR ''/'' # y) = Some (m, d, y)"
    by (simp add: RE_MM_DD_YYYY_day_def slash_def y4)
  have "first_match (RE_MM_DD_YYYY_day m) (digits_1_2 (d @ CHR ''/'' # y)) = Some (m, d, y)"
    using dd by (simp add: digits_1_2_exact[OF d punct_classes(9)])
  then have mm: "RE_MM_DD_YYYY_month (m, CHR ''/'' # d @ CHR ''/'' # y) = Some (m, d, y)"
    by (simp add: RE_MM_DD_YYYY_month_def slash_def)
  have "first_match RE_MM_DD_YYYY_month (digits_1_2 (m @ CHR ''/'' # d @ CHR ''/'' # y))
      = Some (m, d, y)"
    using mm by (simp add: digits_1_2_exact[OF m punct_classes(9)])
  then show ?thesis
    by (simp add: RE_MM_DD_YYYY_match_def)
qed

lemma date_slashes:
  assumes "list_all is_digit (m @ d @ y)" "length m = 1 \<or> length m = 2"
    "length d = 1 \<or> length d = 2" "length y = 4"
  shows "standardize_date_format (Some (m @ ''/'' @ d @ ''/'' @ y))
     = y @ ''-'' @ py_zfill 2 m @ ''-'' @ py_zfill 2 d"
proof -
  let ?s = "m @ ''/'' @ d @ ''/'' @ y"
  from assms have dg: "list_all is_digit m" "list_all is_digit d" "list_all is_digit y"
    by simp_all
  from assms(2) have mne: "m \<noteq> []" by auto
  from assms(4) have yne: "y \<noteq> []" by auto
  have "is_digit (hd m)" using dg(1) mne by (cases m) simp_all
  then have h: "\<not> is_space (hd ?s)" using mne by (simp add: digit_not_space)
  have "is_digit (last y)" using dg(3) yne by (simp add: list_all_iff)
  then have l: "\<not> is_space (last ?s)" using yne by (simp add: digit_not_space)
  have s: "py_strip ?s = ?s"
    using h l by (intro py_strip_id) simp_all
  have n: "RE_MONTH_DAY_YEAR_match ?s = None"
    using month_day_year_no_space[OF digits_words[OF dg(1)] punct_classes(11,10)] by simp
  have "length m < 4" using assms(2) by auto
  then have "digits_n 4 (m @ CHR ''/'' # d @ ''/'' @ y) = None"
    using punct_classes(9) by (rule digits_n_short)
  then have i: "\<not> RE_YYYY_MM_DD_match ?s"
    by (simp add: RE_YYYY_MM_DD_match_def)
  have x: "RE_MM_DD_YYYY_match ?s = Some (m, d, y)"
    using dg assms(2,3,4) by (intro mm_dd_yyyy_match)
  show ?thesis
    unfolding standardize_date_format_def option.case Let_def s n using i x by simp
qed

lemma date_unrecognized:
  assumes "\<not> date_recognized (py_strip s)"
  shows "standardize_date_format (Some s) = py_strip s"
  using assms
  by (auto simp: standardize_date_format_def date_recognized_def Let_def split: option.splits)

text \<open>
  Claim C7, as the code has it.  The date formatter maps "Month Day, Year" (a month
  name or abbreviation of the table in any letter case, a day of one or two digits, a
  year of four digits) and "M/D/YYYY" to the zero-padded "YYYY-MM-DD" and returns
  "YYYY-MM-DD" as it is.  An input in which, after stripping, none of the three
  patterns is recognized is returned with its leading and trailing whitespace
  stripped; it is unchanged when it has none.  The function is total: it does not
  raise.
\<close>

theorem standardize_date_format_cases:
  "(map_of MONTH_TO_NUM_MAP (py_lower month) = Some month_num \<and> list_all is_digit day \<and>
      (length day = 1 \<or> length day = 2) \<and> list_all is_digit year \<and> length year = 4 \<longrightarrow>
      standardize_date_format (Some (month @ '' '' @ day @ '', '' @ year))
        = year @ ''-'' @ month_num @ ''-'' @ py_zfill 2 day)
   \<and> (list_all is_digit (yyyy @ mm @ dd) \<and> length yyyy = 4 \<and> length mm = 2 \<and> length dd = 2 \<longrightarrow>
      standardize_date_format (Some (yyyy @ ''-'' @ mm @ ''-'' @ dd))
        = yyyy @ ''-'' @ mm @ ''-'' @ dd)
   \<and> (list_all is_digit (m @ d @ y) \<and> (length m = 1 \<or> length m = 2) \<and>
      (length d = 1 \<or> length d = 2) \<and> length y = 4 \<longrightarrow>
      standardize_date_format (Some (m @ ''/'' @ d @ ''/'' @ y))
        = y @ ''-'' @ py_zfill 2 m @ ''-'' @ py_zfill 2 d)
   \<and> (\<not> date_recognized (py_strip s) \<longrightarrow> standardize_date_format (Some s) = py_strip s)"
  using date_month_day_year date_iso date_slashes date_unrecognized by blast

theorem standardize_date_format_cases_witness:
  "standardize_date_format (Some ''January 5, 1984'') = ''1984-01-05''
   \<and> standardize_date_format (Some ''1984-01-05'') = ''1984-01-05''
   \<and> standardize_date_format (Some ''1/5/1984'') = ''1984-01-05''
   \<and> standardize_date_format (Some ''circa 1984'') = ''circa 1984''"
proof -
  have t: "map_of MONTH_TO_NUM_MAP (py_lower ''January'') = Some ''01''"
    by code_simp
  have g: "list_all is_digit ''5''" "list_all is_digit ''1984''" "list_all is_digit ''19840105''"
    "list_all is_digit ''151984''"
    by code_simp+
  have u: "\<not> date_recognized (py_strip ''circa 1984'')" "py_strip ''circa 1984'' = ''circa 1984''"
    by code_simp+
  note c = standardize_date_format_cases[where month = "''January''" and month_num = "''01''"
      and day = "''5''" and year = "''1984''" and yyyy = "''1984''" and mm = "''01''"
      and dd = "''05''" and m = "''1''" and d = "''5''" and y = "''1984''" and s = "''circa 1984''"]
  from c t g u show ?thesis
    by (simp add: py_zfill_def)
qed

text \<open>
  Claim C7 as stated returns every unrecognized input unchanged.  An unrecognized input
  with a leading blank comes back without the blank.
\<close>

theorem date_unrecognized_counterexample:
  "\<not> date_recognized '' circa 1984'' \<and> \<not> date_recognized (py_strip '' circa 1984'')
   \<and> standardize_date_format (Some '' circa 1984'') = ''circa 1984''
   \<and> standardize_date_format (Some '' circa 1984'') \<noteq> '' circa 1984''"
  by code_simp

subsection \<open>The height formatter\<close>











subsection \<open>The name normalizer\<close>

subsubsection \<open>Substitution keeps or deletes characters\<close>

lemma re_sub_set: "set (re_sub m repl prev s) \<subseteq> set s \<union> set repl"
proof (induction s arbitrary: prev rule: length_induct)
  case (1 s)
  show ?case
  proof (cases s)
    case Nil
    then show ?thesis by simp
  next
    case (Cons c cs)
    have a: "set (re_sub m repl p cs) \<subseteq> set cs \<union> set repl" for p
      using 1 Cons by simp
    have "length (drop k cs) < length s" for k
      using Cons by simp
    then have b: "set (re_sub m repl p (drop k cs)) \<subseteq> set (drop k cs) \<union> set repl" for p k
      using 1 by blast
    have c: "set (drop k cs) \<subseteq> set cs" for k
      by (rule set_drop_subset)
    show ?thesis
      using a b c unfolding Cons
      by (auto split: option.splits nat.splits simp del: drop_Suc_Cons) blast+
  qed
qed

lemma py_replace_set: "set (py_replace old new s) \<subseteq> set s \<union> set new"
proof (induction s rule: length_induct)
  case (1 s)
  show ?case
  proof (cases s)
    case Nil
    then show ?thesis by simp
  next
    case (Cons c cs)
    have a: "set (py_replace old new cs) \<subseteq> set cs \<union> set new"
      using 1 Cons by simp
    have b: "old \<noteq> [] \<Longrightarrow> set (py_replace old new (drop (length old) (c # cs)))
        \<subseteq> set (drop (length old) (c # cs)) \<union> set new"
      using 1 Cons by (cases old) simp_all
    have c: "set (drop (length old) (c # cs)) \<subseteq> set (c # cs)"
      by (rule set_drop_subset)
    show ?thesis
      using a b c unfolding Cons py_replace.simps by (auto simp del: drop_Suc_Cons)
  qed
qed

lemma py_strip_set: "set (py_strip s) \<subseteq> set s"
proof -
  have "set (py_rstrip t) \<subseteq> set t" for t
    using set_dropWhileD[of _ is_space "rev t"] by (auto simp: py_rstrip_def)
  moreover have "set (py_lstrip s) \<subseteq> set s"
    by (auto simp: py_lstrip_def dest: set_dropWhileD)
  ultimately show ?thesis
    unfolding py_strip_def by blast
qed


subsubsection \<open>Lower case\<close>

lemma lower_char_not_upper: "\<not> is_upper (lower_char c)"
proof (cases "is_upper c")
  case True
  then have "code c + 32 < 256"
    by (auto simp: is_upper_def between_def)
  then have "code (char_of (code c + 32)) = code c + 32"
    by (simp add: code_def)
  then show ?thesis
    using True by (auto simp: lower_char_def is_upper_def between_def)
next
  case False
  then show ?thesis by (simp add: lower_char_def)
qed

lemma py_lower_not_upper: "list_all (\<lambda>c. \<not> is_upper c) (py_lower s)"
  by (simp add: py_lower_def list_all_iff lower_char_not_upper)

lemma py_lower_id: "list_all (\<lambda>c. \<not> is_upper c) s \<Longrightarrow> py_lower s = s"
  by (induction s) (simp_all add: py_lower_def lower_char_def)

lemma py_isupper_no_upper: "list_all (\<lambda>c. \<not> is_upper c) s \<Longrightarrow> \<not> py_isupper s"
  by (simp add: py_isupper_def list_all_iff list_ex_iff)

subsubsection \<open>Punctuation\<close>

lemma re_sub_punctuation:
  "re_sub RE_PUNCTUATION [] prev s = filter (\<lambda>c. is_word c \<or> is_space c \<or> c = CHR 0x27) s"
  by (induction s arbitrary: prev) (simp_all add: RE_PUNCTUATION_def)

subsubsection \<open>Whitespace\<close>

lemma collapse_space:
  "is_space c \<Longrightarrow> re_sub RE_MULTIPLE_SPACES '' '' prev (c # cs)
     = CHR '' '' # re_sub RE_MULTIPLE_SPACES '' '' (Some (last (c # takeWhile is_space cs)))
                     (dropWhile is_space cs)"
proof -
  assume "is_space c"
  then have m: "RE_MULTIPLE_SPACES prev (c # cs) = Some (Suc (length (takeWhile is_space cs)))"
    by (simp add: RE_MULTIPLE_SPACES_def)
  have t: "take (Suc (length (takeWhile is_space cs))) (c # cs) = c # takeWhile is_space cs"
    by (simp add: take_Suc_Cons) (metis append_eq_conv_conj takeWhile_dropWhile_id)
  show ?thesis
    by (simp only: re_sub.simps m option.case nat.case t drop_takeWhile_length) simp
qed

lemma collapse_other:
  "\<not> is_space c \<Longrightarrow> re_sub RE_MULTIPLE_SPACES '' '' prev (c # cs)
     = c # re_sub RE_MULTIPLE_SPACES '' '' (Some c) cs"
  by (simp add: RE_MULTIPLE_SPACES_def)

lemma blank_space: "is_space CHR '' ''"
  by (simp add: is_space_def between_def code_def)

lemma collapse_hd:
  "(case re_sub RE_MULTIPLE_SPACES '' '' prev (dropWhile is_space cs) of
      [] \<Rightarrow> True | d # _ \<Rightarrow> \<not> is_space d)"
proof (cases "dropWhile is_space cs")
  case Nil
  show ?thesis unfolding Nil by simp
next
  case (Cons d ds)
  then have nd: "\<not> is_space d"
    by (metis hd_dropWhile list.distinct(1) list.sel(1))
  then have "re_sub RE_MULTIPLE_SPACES '' '' prev (d # ds)
      = d # re_sub RE_MULTIPLE_SPACES '' '' (Some d) ds"
    by (rule collapse_other)
  then show ?thesis
    unfolding Cons by (simp only: list.case nd simp_thms)
qed

lemma collapse_single_spaced: "single_spaced (re_sub RE_MULTIPLE_SPACES '' '' prev s)"
proof (induction s arbitrary: prev rule: length_induct)
  case (1 s)
  show ?case
  proof (cases s)
    case Nil
    then show ?thesis by simp
  next
    case (Cons c cs)
    show ?thesis
    proof (cases "is_space c")
      case True
      have "length (dropWhile is_space cs) < length s"
        using Cons by (simp add: length_dropWhile_le le_imp_less_Suc)
      then have "single_spaced (re_sub RE_MULTIPLE_SPACES '' '' p (dropWhile is_space cs))" for p
        using 1 by blast
      then show ?thesis
        unfolding Cons collapse_space[OF True]
        using collapse_hd[of _ cs] by (simp add: blank_space)
    next
      case False
      have "single_spaced (re_sub RE_MULTIPLE_SPACES '' '' (Some c) cs)"
        using 1 Cons by simp
      then show ?thesis
        unfolding Cons collapse_other[OF False] using False by simp
    qed
  qed
qed

lemma single_spaced_collapse:
  "single_spaced s \<Longrightarrow> re_sub RE_MULTIPLE_SPACES '' '' prev s = s"
proof (induction s arbitrary: prev)
  case Nil
  then show ?case by simp
next
  case (Cons c cs)
  show ?case
  proof (cases "is_space c")
    case True
    with Cons.prems have c: "c = CHR '' ''" and h: "(case cs of [] \<Rightarrow> True | d # _ \<Rightarrow> \<not> is_space d)"
      and s: "single_spaced cs"
      by simp_all
    from h have d: "dropWhile is_space cs = cs"
      by (cases cs) simp_all
    show ?thesis
      unfolding collapse_space[OF True] d using Cons.IH[OF s] c by simp
  next
    case False
    with Cons.prems have s: "single_spaced cs" by simp
    show ?thesis
      unfolding collapse_other[OF False] using Cons.IH[OF s] by simp
  qed
qed

lemma single_spaced_tl: "single_spaced (c # cs) \<Longrightarrow> single_spaced cs"
  by (simp split: if_splits)

lemma single_spaced_dropWhile: "single_spaced s \<Longrightarrow> single_spaced (dropWhile P s)"
  by (induction s) (auto dest: single_spaced_tl simp del: single_spaced.simps)

lemma single_spaced_prefix: "single_spaced (xs @ ys) \<Longrightarrow> single_spaced xs"
proof (induction xs)
  case Nil
  then show ?case by simp
next
  case (Cons c xs)
  then show ?case
    by (cases xs) (auto split: if_splits)
qed

lemma py_rstrip_prefix: "py_rstrip s @ rev (takeWhile is_space (rev s)) = s"
proof -
  have "rev (takeWhile is_space (rev s) @ dropWhile is_space (rev s)) = s"
    by simp
  then show ?thesis
    unfolding py_rstrip_def rev_append .
qed

lemma single_spaced_strip: "single_spaced s \<Longrightarrow> single_spaced (py_strip s)"
proof -
  assume "single_spaced s"
  then have "single_spaced (py_lstrip s)"
    unfolding py_lstrip_def by (rule single_spaced_dropWhile)
  then have "single_spaced (py_rstrip (py_lstrip s) @ rev (takeWhile is_space (rev (py_lstrip s))))"
    by (simp only: py_rstrip_prefix)
  then show ?thesis
    unfolding py_strip_def by (rule single_spaced_prefix)
qed

subsubsection \<open>Stripping twice\<close>

lemma py_rstrip_Cons: "\<not> is_space d \<Longrightarrow> py_rstrip (d # r) = d # py_rstrip r"
proof -
  assume d: "\<not> is_space d"
  have "dropWhile is_space (rev r @ [d]) = dropWhile is_space (rev r) @ [d]"
    using d by (induction "rev r" arbitrary: r) (auto simp: dropWhile_append)
  then show ?thesis
    by (simp add: py_rstrip_def)
qed

lemma py_rstrip_idem: "py_rstrip (py_rstrip s) = py_rstrip s"
proof -
  have "dropWhile is_space (dropWhile is_space xs) = dropWhile is_space xs" for xs
    by (rule dropWhile_idem)
  then show ?thesis by (simp add: py_rstrip_def)
qed

lemma py_strip_idem: "py_strip (py_strip s) = py_strip s"
proof (cases "py_lstrip s")
  case Nil
  have e: "py_strip [] = []"
    by (simp add: py_strip_def py_rstrip_def py_lstrip_def)
  have "py_strip s = []"
    unfolding py_strip_def Nil by (simp add: py_rstrip_def)
  then show ?thesis
    by (simp only: e)
next
  case (Cons d r)
  then have d: "\<not> is_space d"
    unfolding py_lstrip_def by (metis hd_dropWhile list.distinct(1) list.sel(1))
  have "py_lstrip (d # py_rstrip r) = d # py_rstrip r"
    using d by (simp add: py_lstrip_def)
  then show ?thesis
    unfolding py_strip_def Cons py_rstrip_Cons[OF d]
    by (simp add: py_rstrip_Cons[OF d] py_rstrip_idem)
qed

subsubsection \<open>The shape of a canonical key\<close>

lemma variants_key_chars:
  "list_all (\<lambda>(variant, standard). list_all (\<lambda>c. \<not> is_upper c) standard) NAME_REPLACEMENTS"
  by code_simp

lemma replace_name_variants_not_upper:
  assumes "list_all (\<lambda>c. \<not> is_upper c) s"
  shows "list_all (\<lambda>c. \<not> is_upper c) (replace_name_variants s)"
proof -
  have "list_all (\<lambda>(variant, standard). list_all (\<lambda>c. \<not> is_upper c) standard) rs \<Longrightarrow>
      list_all (\<lambda>c. \<not> is_upper c) t \<Longrightarrow>
      list_all (\<lambda>c. \<not> is_upper c) (fold (\<lambda>(variant, standard). py_replace variant standard) rs t)"
    for rs t
  proof (induction rs arbitrary: t)
    case Nil
    then show ?case by simp
  next
    case (Cons r rs)
    obtain variant standard where r: "r = (variant, standard)" by (cases r)
    have "list_all (\<lambda>c. \<not> is_upper c) (py_replace variant standard t)"
      using Cons.prems py_replace_set[of variant standard t]
      by (auto simp: r list_all_iff)
    then show ?case
      using Cons.prems(1) by (simp add: r Cons.IH)
  qed
  then show ?thesis
    unfolding replace_name_variants_def using variants_key_chars assms by blast
qed

lemma blank_key_char: "key_char CHR '' ''"
  by (simp add: key_char_def char_class_defs code_def)

lemma normalize_name_canonical: "canonical_key (normalize_name name)"
proof (cases name)
  case None
  then show ?thesis
    by (simp add: normalize_name_def canonical_key_def py_strip_def py_lstrip_def py_rstrip_def)
next
  case (Some n)
  define s2 where "s2 = py_lower (if py_isupper (py_strip n)
      then py_join '' '' (map py_capitalize (py_split (py_strip n))) else py_strip n)"
  define s4 where "s4 = replace_name_variants (strip_suffixes s2)"
  define s5 where "s5 = re_sub RE_PUNCTUATION [] None s4"
  define s6 where "s6 = re_sub RE_MULTIPLE_SPACES '' '' None s5"
  have y: "normalize_name name = py_strip s6"
    by (simp add: Some normalize_name_def Let_def s2_def s4_def s5_def s6_def)
  have "list_all (\<lambda>c. \<not> is_upper c) s2"
    unfolding s2_def by (rule py_lower_not_upper)
  then have "list_all (\<lambda>c. \<not> is_upper c) (strip_suffixes s2)"
    using re_sub_set[of RE_SUFFIXES "[]" None s2] by (auto simp: strip_suffixes_def list_all_iff)
  then have u4: "list_all (\<lambda>c. \<not> is_upper c) s4"
    unfolding s4_def by (rule replace_name_variants_not_upper)
  have k5: "list_all key_char s5"
    using u4 by (auto simp: s5_def re_sub_punctuation key_char_def list_all_iff)
  have "set s6 \<subseteq> set s5 \<union> set '' ''"
    unfolding s6_def by (rule re_sub_set)
  then have "list_all key_char s6"
    using k5 blank_key_char by (auto simp: list_all_iff)
  then have k: "list_all key_char (py_strip s6)"
    using py_strip_set[of s6] by (auto simp: list_all_iff)
  have "single_spaced s6"
    unfolding s6_def by (rule collapse_single_spaced)
  then have "single_spaced (py_strip s6)"
    by (rule single_spaced_strip)
  then show ?thesis
    unfolding y canonical_key_def using k py_strip_idem by simp
qed

lemma canonical_key_fixed:
  assumes "canonical_key s" "strip_suffixes s = s" "replace_name_variants s = s"
  shows "normalize_name (Some s) = s"
proof -
  from assms(1) have st: "py_strip s = s" and k: "list_all key_char s" and sp: "single_spaced s"
    by (simp_all add: canonical_key_def)
  from k have nu: "list_all (\<lambda>c. \<not> is_upper c) s"
    by (simp add: key_char_def list_all_iff)
  have p: "re_sub RE_PUNCTUATION [] None s = s"
    using k by (simp add: re_sub_punctuation key_char_def list_all_iff)
  have c: "re_sub RE_MULTIPLE_SPACES '' '' None s = s"
    using sp by (rule single_spaced_collapse)
  show ?thesis
    by (simp add: normalize_name_def Let_def st py_isupper_no_upper[OF nu] py_lower_id[OF nu]
        assms(2,3) p c)
qed

text \<open>
  Claim C2, as the code has it.  The result of the normalizer always has the shape of a
  canonical key, and normalizing it again returns it unchanged whenever the
  suffix-stripping step and the alias-substitution step leave it unchanged, that is,
  whenever the key holds no suffix token and no alias variant.
\<close>

theorem normalize_name_idempotent_on_stable_keys:
  assumes "strip_suffixes (normalize_name name) = normalize_name name"
    and "replace_name_variants (normalize_name name) = normalize_name name"
  shows "normalize_name (Some (normalize_name name)) = normalize_name name"
  using normalize_name_canonical assms by (rule canonical_key_fixed)

theorem normalize_name_idempotent_on_stable_keys_witness:
  "normalize_name (Some ''Al Bo Jr.'') = ''al bo'' \<and> normalize_name (Some ''al bo'') = ''al bo''"
proof -
  have y: "normalize_name (Some ''Al Bo Jr.'') = ''al bo''"
    by code_simp
  have 1: "strip_suffixes ''al bo'' = ''al bo''"
    by code_simp
  have 2: "replace_name_variants ''al bo'' = ''al bo''"
    by code_simp
  from normalize_name_idempotent_on_stable_keys[of "Some ''Al Bo Jr.''"] y 1 2
  show ?thesis by simp
qed

text \<open>
  Claim C2 as stated holds for every string.  The punctuation is removed after the
  suffixes: "j.r" normalizes to "jr", which is a suffix token and normalizes to the
  empty string.
\<close>

theorem normalize_name_not_idempotent_counterexample:
  "normalize_name (Some ''j.r'') = ''jr'' \<and> normalize_name (Some ''jr'') = []
   \<and> normalize_name (Some (normalize_name (Some ''j.r''))) \<noteq> normalize_name (Some ''j.r'')"
  by code_simp

end
